theory Spec2Isabelle
  imports Main "HOL-Library.Word"
begin

section \<open>JavaScript strings\<close>

text \<open>
  A JavaScript string is a sequence of 16-bit UTF-16 code units; \<open>.length\<close> counts code
  units and a regular expression without the \<open>u\<close> flag matches code unit by code unit.
  The values typed into the form are modelled as lists of code units. The string literals
  of the source (messages, the endpoint, the route) are ASCII and kept as HOL strings.
\<close>

type_synonym code_unit = "16 word"
type_synonym jsstring = "code_unit list"

definition js :: "string \<Rightarrow> jsstring" where
  "js s = map (\<lambda>c. of_nat (of_char c)) s"

section \<open>Regular expressions of the source\<close>

text \<open>
  The four regular expression literals of \<open>Register.jsx\<close> use character classes, single
  characters, quantified classes, positive lookahead and the two anchors; none has a flag.
  \<open>\d\<close> is \<open>[0-9]\<close>, \<open>\s\<close> is ECMAScript's WhiteSpace and LineTerminator, and \<open>.\<close>
  is every code unit but the four line terminators.
\<close>

definition is_digit :: "code_unit \<Rightarrow> bool" where
  "is_digit c = (0x30 \<le> c \<and> c \<le> 0x39)"

definition is_space :: "code_unit \<Rightarrow> bool" where
  "is_space c =
     (c \<in> set [0x09, 0x0A, 0x0B, 0x0C, 0x0D, 0x20, 0xA0, 0x1680,
                 0x2028, 0x2029, 0x202F, 0x205F, 0x3000, 0xFEFF]
      \<or> (0x2000 \<le> c \<and> c \<le> 0x200A))"

definition is_line_terminator :: "code_unit \<Rightarrow> bool" where
  "is_line_terminator c = (c \<in> set [0x0A, 0x0D, 0x2028, 0x2029])"

datatype cls =
    Digit
  | Space
  | AnyChar
  | Range code_unit code_unit
  | Lit code_unit
  | NoneOf "cls list"

fun cls_match :: "cls \<Rightarrow> code_unit \<Rightarrow> bool" where
  "cls_match Digit c = is_digit c"
| "cls_match Space c = is_space c"
| "cls_match AnyChar c = (\<not> is_line_terminator c)"
| "cls_match (Range lo hi) c = (lo \<le> c \<and> c \<le> hi)"
| "cls_match (Lit k) c = (c = k)"
| "cls_match (NoneOf cs) c = (\<not> list_ex (\<lambda>k. cls_match k c) cs)"

datatype node =
    Chr cls
  | Rep cls nat "nat option"
  | Lookahead "node list"
  | Bol
  | Eol

text \<open>
  \<open>re_match ps pos s\<close>: the pattern \<open>ps\<close> matches at index \<open>pos\<close> of the input, where
  \<open>s\<close> is the input from \<open>pos\<close> on. A quantified class may take any number of code units
  within its bounds (the backtracking matcher tries them all, so a match exists exactly when
  one of these choices succeeds); \<open>^\<close> holds at index 0 only and \<open>$\<close> at the end of the
  input only, since no literal has the \<open>m\<close> flag.
\<close>

fun re_match :: "node list \<Rightarrow> nat \<Rightarrow> jsstring \<Rightarrow> bool" where
  "re_match [] pos s = True"
| "re_match (Bol # ps) pos s = (pos = 0 \<and> re_match ps pos s)"
| "re_match (Eol # ps) pos s = (s = [] \<and> re_match ps pos s)"
| "re_match (Chr c # ps) pos s =
     (case s of [] \<Rightarrow> False | x # xs \<Rightarrow> cls_match c x \<and> re_match ps (Suc pos) xs)"
| "re_match (Rep c lo hi # ps) pos s =
     list_ex (\<lambda>k. (case hi of None \<Rightarrow> True | Some h \<Rightarrow> k \<le> h)
                  \<and> list_all (cls_match c) (take k s)
                  \<and> re_match ps (pos + k) (drop k s))
             [lo ..< Suc (length s)]"
| "re_match (Lookahead qs # ps) pos s = (re_match qs pos s \<and> re_match ps pos s)"

text \<open>\<open>RegExp.prototype.test\<close> of a literal without flags: a match at some index.\<close>

definition re_test :: "node list \<Rightarrow> jsstring \<Rightarrow> bool" where
  "re_test ps s = list_ex (\<lambda>i. re_match ps i (drop i s)) [0 ..< Suc (length s)]"

text \<open>\<^verbatim>\<open>/\d/\<close>\<close>

definition digit_re :: "node list" where
  "digit_re = [Chr Digit]"

text \<open>\<^verbatim>\<open>/^[^\s@]+@[^\s@]+\.[^\s@]+$/\<close>\<close>

definition email_re :: "node list" where
  "email_re =
     [Bol, Rep (NoneOf [Space, Lit 0x40]) 1 None, Chr (Lit 0x40),
      Rep (NoneOf [Space, Lit 0x40]) 1 None, Chr (Lit 0x2E),
      Rep (NoneOf [Space, Lit 0x40]) 1 None, Eol]"

text \<open>\<^verbatim>\<open>/^\+\d{2}\d{1,2}\d{7,8}$/\<close>\<close>

definition phone_re :: "node list" where
  "phone_re =
     [Bol, Chr (Lit 0x2B), Rep Digit 2 (Some 2), Rep Digit 1 (Some 2),
      Rep Digit 7 (Some 8), Eol]"

text \<open>\<^verbatim>\<open>/^(?=.*[a-z])(?=.*[A-Z])(?=.*\d).{8,}$/\<close>\<close>

definition password_re :: "node list" where
  "password_re =
     [Bol,
      Lookahead [Rep AnyChar 0 None, Chr (Range 0x61 0x7A)],
      Lookahead [Rep AnyChar 0 None, Chr (Range 0x41 0x5A)],
      Lookahead [Rep AnyChar 0 None, Chr Digit],
      Rep AnyChar 8 None, Eol]"

section \<open>State of the Register component\<close>

datatype field = FirstName | LastName | Email | PhoneNumber | Password | ConfirmPassword

datatype error_key =
    FirstNameError
  | LastNameError
  | EmailError
  | PhoneNumberError
  | PasswordError
  | ConfirmPasswordError

text \<open>An entry of \<open>errorMessage\<close> is \<open>false\<close> or a message.\<close>

datatype error_entry = ErrFalse | ErrMsg string

type_synonym form_data = "field \<Rightarrow> jsstring"
type_synonym error_state = "error_key \<Rightarrow> error_entry"

record state =
  successMessage :: string
  showSuccess :: bool
  errorMessage :: error_state
  formData :: form_data

definition initial_state :: state where
  "initial_state =
     \<lparr>successMessage = [], showSuccess = False,
      errorMessage = (\<lambda>k. ErrFalse), formData = (\<lambda>f. [])\<rparr>"

section \<open>Effects of the handlers\<close>

text \<open>
  A handler is modelled by the effects it performs, in order. \<open>SetErrorMessage kvs\<close> is
  the functional update \<^verbatim>\<open>setErrorMessage((prevState) => ({...prevState, k: v, ...}))\<close>
  with the overriding properties \<open>kvs\<close>.
\<close>

datatype callback = Navigate string

datatype effect =
    PreventDefault
  | NetworkPut string form_data
  | SetSuccessMessage string
  | SetShowSuccess bool
  | SetTimeout callback nat
  | SetErrorMessage "(error_key \<times> error_entry) list"
  | SetFormData form_data

fun spread :: "error_state \<Rightarrow> (error_key \<times> error_entry) list \<Rightarrow> error_state" where
  "spread prev [] = prev"
| "spread prev ((k, v) # kvs) = spread (prev(k := v)) kvs"

fun apply_effect :: "state \<Rightarrow> effect \<Rightarrow> state" where
  "apply_effect s (SetSuccessMessage m) = s\<lparr>successMessage := m\<rparr>"
| "apply_effect s (SetShowSuccess b) = s\<lparr>showSuccess := b\<rparr>"
| "apply_effect s (SetErrorMessage kvs) = s\<lparr>errorMessage := spread (errorMessage s) kvs\<rparr>"
| "apply_effect s (SetFormData fd) = s\<lparr>formData := fd\<rparr>"
| "apply_effect s PreventDefault = s"
| "apply_effect s (NetworkPut url body) = s"
| "apply_effect s (SetTimeout cb ms) = s"

definition run :: "effect list \<Rightarrow> state \<Rightarrow> state" where
  "run es s = foldl apply_effect s es"

text \<open>
  Modelled from the spec: the value that \<open>networkAdapter.put\<close> resolves to. The adapter
  (\<open>services/NetworkAdapter\<close>) is not among the sources; the spec gives the expected
  response shape \<open>{ errors: Array }\<close>. A response is \<open>null\<close> or \<open>undefined\<close>
  (\<open>Nullish\<close>), or an object whose \<open>errors\<close> property is absent (\<open>None\<close>) or an array.
  An object and an array, also the empty one, are truthy.
\<close>

datatype response = Nullish | Body "jsstring list option"

section \<open>handleChange\<close>

text \<open>
  \<^verbatim>\<open>setFormData({ ...formData, [e.target.name]: e.target.value })\<close>, where the name is
  that of one of the six inputs.
\<close>

definition handleChange :: "form_data \<Rightarrow> field \<Rightarrow> jsstring \<Rightarrow> effect list" where
  "handleChange fd name val = [SetFormData (fd(name := val))]"

definition on_change :: "state \<Rightarrow> field \<Rightarrow> jsstring \<Rightarrow> state" where
  "on_change s name val = run (handleChange (formData s) name val) s"

section \<open>handleSubmit\<close>

text \<open>The validation blocks, last to first; each ends the handler when its field fails.\<close>

definition password_validation :: "form_data \<Rightarrow> effect list" where
  "password_validation fd =
     (if re_test password_re (fd Password) = False then
        [SetErrorMessage [(PasswordError, ErrMsg ''Min. 8 characters, upper and lowercase'')]]
      else if re_test password_re (fd ConfirmPassword) = False then
        [SetErrorMessage
           [(ConfirmPasswordError, ErrMsg ''Min. 8 characters, upper and lowercase'')]]
      else if fd Password \<noteq> fd ConfirmPassword then
        [SetErrorMessage [(PasswordError, ErrMsg ''The passwords don't match'')]]
      else
        [SetErrorMessage [(PasswordError, ErrFalse), (ConfirmPasswordError, ErrFalse)]])"

definition phoneNumber_validation :: "form_data \<Rightarrow> effect list" where
  "phoneNumber_validation fd =
     (if re_test phone_re (fd PhoneNumber) = False then
        [SetErrorMessage
           [(PhoneNumberError, ErrMsg ''Incorrect phone number format e.g.(+36302748465)'')]]
      else
        SetErrorMessage [(PhoneNumberError, ErrFalse)] # password_validation fd)"

definition email_validation :: "form_data \<Rightarrow> effect list" where
  "email_validation fd =
     (if re_test email_re (fd Email) = False then
        [SetErrorMessage [(EmailError, ErrMsg ''Incorrect email adress'')]]
      else
        SetErrorMessage [(EmailError, ErrFalse)] # phoneNumber_validation fd)"

definition lastName_validation :: "form_data \<Rightarrow> effect list" where
  "lastName_validation fd =
     (if length (fd LastName) < 2 then
        [SetErrorMessage [(LastNameError, ErrMsg ''Must be at least 2 characters long'')]]
      else if re_test digit_re (fd LastName) then
        [SetErrorMessage [(LastNameError, ErrMsg ''The field cannot contain numbers'')]]
      else
        SetErrorMessage [(LastNameError, ErrFalse)] # email_validation fd)"

definition firstName_validation :: "form_data \<Rightarrow> effect list" where
  "firstName_validation fd =
     (if length (fd FirstName) < 2 then
        [SetErrorMessage [(FirstNameError, ErrMsg ''Must be at least 2 characters long'')]]
      else if re_test digit_re (fd FirstName) then
        [SetErrorMessage [(FirstNameError, ErrMsg ''The field cannot contain numbers'')]]
      else
        SetErrorMessage [(FirstNameError, ErrFalse)] # lastName_validation fd)"

text \<open>
  \<^verbatim>\<open>if (response && response.errors && response.errors.length < 1) { ... }\<close>; the
  message \<open>REGISTRATION_MESSAGES.SUCCESS\<close> of \<open>utils/constants\<close> is the parameter
  \<open>success\<close>.
\<close>

definition on_response :: "string \<Rightarrow> response \<Rightarrow> effect list" where
  "on_response success response =
     (if (case response of
            Nullish \<Rightarrow> False
          | Body errors \<Rightarrow> (case errors of None \<Rightarrow> False | Some es \<Rightarrow> length es < 1))
      then [SetSuccessMessage success, SetShowSuccess True, SetTimeout (Navigate ''/login'') 2000]
      else [])"

text \<open>
  The asynchronous handler: the effects up to the \<open>await\<close>, and the rest of the body as a
  function of the awaited response.
\<close>

definition handleSubmit :: "string \<Rightarrow> form_data \<Rightarrow> effect list \<times> (response \<Rightarrow> effect list)" where
  "handleSubmit success fd =
     ([PreventDefault, NetworkPut ''/api/users/register'' fd],
      \<lambda>response. on_response success response @ firstName_validation fd)"

definition submit_trace :: "string \<Rightarrow> form_data \<Rightarrow> response \<Rightarrow> effect list" where
  "submit_trace success fd response =
     fst (handleSubmit success fd) @ snd (handleSubmit success fd) response"

definition on_submit :: "string \<Rightarrow> state \<Rightarrow> response \<Rightarrow> state" where
  "on_submit success s response = run (submit_trace success (formData s) response) s"

section \<open>The toasts of the rendered form\<close>

datatype toast = ErrorToast string | SuccessToast string

text \<open>\<^verbatim>\<open>{errorMessage.k && <Toast type="error" message={errorMessage.k} />}\<close>\<close>

fun error_toast :: "error_entry \<Rightarrow> toast list" where
  "error_toast ErrFalse = []"
| "error_toast (ErrMsg m) = (if m = [] then [] else [ErrorToast m])"

definition toasts :: "state \<Rightarrow> toast list" where
  "toasts s =
     concat (map (\<lambda>k. error_toast (errorMessage s k))
       [FirstNameError, LastNameError, EmailError, PhoneNumberError, PasswordError,
        ConfirmPasswordError])
     @ (if showSuccess s then [SuccessToast (successMessage s)] else [])"

section \<open>Vocabulary of the specification\<close>

text \<open>The rules of the specification, in its words, to be compared with the tests of the code.\<close>

definition contains_digit :: "jsstring \<Rightarrow> bool" where
  "contains_digit s = (\<exists>c \<in> set s. is_digit c)"

text \<open>Name fields: at least 2 code units, and no digit.\<close>

definition name_rule :: "jsstring \<Rightarrow> bool" where
  "name_rule s = (2 \<le> length s \<and> \<not> contains_digit s)"

text \<open>A message of a name field, and the defect of the value that it reports.\<close>

definition name_defect :: "jsstring \<Rightarrow> string \<Rightarrow> bool" where
  "name_defect s m =
     ((length s < 2 \<and> m = ''Must be at least 2 characters long'')
      \<or> (contains_digit s \<and> m = ''The field cannot contain numbers''))"

definition is_lower :: "code_unit \<Rightarrow> bool" where
  "is_lower c = (0x61 \<le> c \<and> c \<le> 0x7A)"

definition is_upper :: "code_unit \<Rightarrow> bool" where
  "is_upper c = (0x41 \<le> c \<and> c \<le> 0x5A)"

text \<open>
  \<open>local@domain.tld\<close>: a nonempty local part, \<open>@\<close>, a nonempty domain, \<open>.\<close>, a nonempty
  tld, with no whitespace and no further \<open>@\<close> in any part.
\<close>

definition email_shape :: "jsstring \<Rightarrow> bool" where
  "email_shape s =
     (\<exists>lp dom tld. s = lp @ [0x40] @ dom @ [0x2E] @ tld
        \<and> lp \<noteq> [] \<and> dom \<noteq> [] \<and> tld \<noteq> []
        \<and> (\<forall>c \<in> set (lp @ dom @ tld). \<not> is_space c \<and> c \<noteq> 0x40))"

text \<open>\<open>+\<close>, a country code of 2 digits, an area code of 1 or 2 digits, a number of 7 or 8 digits.\<close>

definition phone_parts :: "jsstring \<Rightarrow> bool" where
  "phone_parts s =
     (\<exists>cc area num. s = [0x2B] @ cc @ area @ num
        \<and> length cc = 2 \<and> (length area = 1 \<or> length area = 2)
        \<and> (length num = 7 \<or> length num = 8)
        \<and> (\<forall>c \<in> set (cc @ area @ num). is_digit c))"

text \<open>\<open>+\<close> followed by 10 to 12 digits in total.\<close>

definition phone_shape :: "jsstring \<Rightarrow> bool" where
  "phone_shape s =
     (\<exists>ds. s = 0x2B # ds \<and> 10 \<le> length ds \<and> length ds \<le> 12 \<and> (\<forall>c \<in> set ds. is_digit c))"

text \<open>
  The strength rule as the specification words it: at least 8 code units, with a lowercase
  letter, an uppercase letter and a digit.
\<close>

definition strength_rule :: "jsstring \<Rightarrow> bool" where
  "strength_rule s =
     (8 \<le> length s \<and> (\<exists>c \<in> set s. is_lower c) \<and> (\<exists>c \<in> set s. is_upper c)
      \<and> (\<exists>c \<in> set s. is_digit c))"

text \<open>The rule that the password test of the code decides: no line terminator besides.\<close>

definition password_rule :: "jsstring \<Rightarrow> bool" where
  "password_rule s = (strength_rule s \<and> \<not> list_ex is_line_terminator s)"

subsection \<open>The validation steps and their order\<close>

datatype step = FirstNameStep | LastNameStep | EmailStep | PhoneNumberStep | PasswordStep

definition step_order :: "step list" where
  "step_order = [FirstNameStep, LastNameStep, EmailStep, PhoneNumberStep, PasswordStep]"

fun step_keys :: "step \<Rightarrow> error_key list" where
  "step_keys FirstNameStep = [FirstNameError]"
| "step_keys LastNameStep = [LastNameError]"
| "step_keys EmailStep = [EmailError]"
| "step_keys PhoneNumberStep = [PhoneNumberError]"
| "step_keys PasswordStep = [PasswordError, ConfirmPasswordError]"

text \<open>A step passes when none of its tests in \<open>handleSubmit\<close> fails.\<close>

fun step_passes :: "form_data \<Rightarrow> step \<Rightarrow> bool" where
  "step_passes fd FirstNameStep =
     (\<not> length (fd FirstName) < 2 \<and> \<not> re_test digit_re (fd FirstName))"
| "step_passes fd LastNameStep =
     (\<not> length (fd LastName) < 2 \<and> \<not> re_test digit_re (fd LastName))"
| "step_passes fd EmailStep = re_test email_re (fd Email)"
| "step_passes fd PhoneNumberStep = re_test phone_re (fd PhoneNumber)"
| "step_passes fd PasswordStep =
     (re_test password_re (fd Password) \<and> re_test password_re (fd ConfirmPassword)
      \<and> fd Password = fd ConfirmPassword)"

text \<open>A step is reached when every step before it in the order passes.\<close>

definition reached :: "form_data \<Rightarrow> step \<Rightarrow> bool" where
  "reached fd st = list_all (step_passes fd) (takeWhile (\<lambda>t. t \<noteq> st) step_order)"

definition first_failing :: "form_data \<Rightarrow> step option" where
  "first_failing fd = find (\<lambda>st. \<not> step_passes fd st) step_order"

text \<open>The entry and the message that a failing step reports.\<close>

fun failure_key :: "form_data \<Rightarrow> step \<Rightarrow> error_key" where
  "failure_key fd FirstNameStep = FirstNameError"
| "failure_key fd LastNameStep = LastNameError"
| "failure_key fd EmailStep = EmailError"
| "failure_key fd PhoneNumberStep = PhoneNumberError"
| "failure_key fd PasswordStep =
     (if \<not> re_test password_re (fd Password) then PasswordError
      else if \<not> re_test password_re (fd ConfirmPassword) then ConfirmPasswordError
      else PasswordError)"

fun failure_message :: "form_data \<Rightarrow> step \<Rightarrow> string" where
  "failure_message fd FirstNameStep =
     (if length (fd FirstName) < 2 then ''Must be at least 2 characters long''
      else ''The field cannot contain numbers'')"
| "failure_message fd LastNameStep =
     (if length (fd LastName) < 2 then ''Must be at least 2 characters long''
      else ''The field cannot contain numbers'')"
| "failure_message fd EmailStep = ''Incorrect email adress''"
| "failure_message fd PhoneNumberStep = ''Incorrect phone number format e.g.(+36302748465)''"
| "failure_message fd PasswordStep =
     (if \<not> re_test password_re (fd Password) then ''Min. 8 characters, upper and lowercase''
      else if \<not> re_test password_re (fd ConfirmPassword) then
        ''Min. 8 characters, upper and lowercase''
      else ''The passwords don't match'')"

text \<open>The entries of the steps that pass before the first failing one.\<close>

definition cleared_keys :: "form_data \<Rightarrow> error_key list" where
  "cleared_keys fd = concat (map step_keys (takeWhile (step_passes fd) step_order))"

definition clear_step :: "step \<Rightarrow> effect" where
  "clear_step st = SetErrorMessage (map (\<lambda>k. (k, ErrFalse)) (step_keys st))"

text \<open>The validation effects of a trace, and the messages they report.\<close>

fun is_validation :: "effect \<Rightarrow> bool" where
  "is_validation (SetErrorMessage kvs) = True"
| "is_validation e = False"

fun messages :: "effect \<Rightarrow> (error_key \<times> string) list" where
  "messages (SetErrorMessage kvs) =
     concat (map (\<lambda>(k, v). case v of ErrFalse \<Rightarrow> [] | ErrMsg m \<Rightarrow> [(k, m)]) kvs)"
| "messages e = []"

definition reported :: "effect list \<Rightarrow> (error_key \<times> string) list" where
  "reported es = concat (map messages es)"

subsection \<open>Forms used as examples\<close>

definition form :: "string \<Rightarrow> string \<Rightarrow> string \<Rightarrow> string \<Rightarrow> jsstring \<Rightarrow> jsstring \<Rightarrow> form_data" where
  "form fn ln em ph pw cp =
     (\<lambda>f. case f of FirstName \<Rightarrow> js fn | LastName \<Rightarrow> js ln | Email \<Rightarrow> js em
          | PhoneNumber \<Rightarrow> js ph | Password \<Rightarrow> pw | ConfirmPassword \<Rightarrow> cp)"

definition valid_form :: form_data where
  "valid_form =
     form ''Anna'' ''Kovacs'' ''anna@example.com'' ''+36302748465''
       (js ''Abcdefg1'') (js ''Abcdefg1'')"

text \<open>A password that ends with U+2028 (LINE SEPARATOR), pasted into both password inputs.\<close>

definition separator_form :: form_data where
  "separator_form =
     form ''Anna'' ''Kovacs'' ''anna@example.com'' ''+36302748465''
       (js ''Abcdefg1'' @ [0x2028]) (js ''Abcdefg1'' @ [0x2028])"

text \<open>A form with two invalid fields: the last name and the email.\<close>

definition two_invalid_form :: form_data where
  "two_invalid_form =
     form ''Anna'' ''K'' ''not-an-email'' ''+36302748465'' (js ''Abcdefg1'') (js ''Abcdefg1'')"

text \<open>Forms with one invalid name field.\<close>

definition short_first_form :: form_data where
  "short_first_form =
     form ''A'' ''Kovacs'' ''anna@example.com'' ''+36302748465'' (js ''Abcdefg1'') (js ''Abcdefg1'')"

definition digit_first_form :: form_data where
  "digit_first_form =
     form ''Ann4'' ''Kovacs'' ''anna@example.com'' ''+36302748465''
       (js ''Abcdefg1'') (js ''Abcdefg1'')"

definition short_last_form :: form_data where
  "short_last_form =
     form ''Anna'' ''K'' ''anna@example.com'' ''+36302748465'' (js ''Abcdefg1'') (js ''Abcdefg1'')"

definition digit_last_form :: form_data where
  "digit_last_form =
     form ''Anna'' ''K0vacs'' ''anna@example.com'' ''+36302748465''
       (js ''Abcdefg1'') (js ''Abcdefg1'')"

text \<open>An email without a dot after the \<open>@\<close>; a phone number without the \<open>+\<close>.\<close>

definition bad_email_form :: form_data where
  "bad_email_form =
     form ''Anna'' ''Kovacs'' ''anna@example'' ''+36302748465'' (js ''Abcdefg1'') (js ''Abcdefg1'')"

definition bad_phone_form :: form_data where
  "bad_phone_form =
     form ''Anna'' ''Kovacs'' ''anna@example.com'' ''06302748465''
       (js ''Abcdefg1'') (js ''Abcdefg1'')"

text \<open>Passwords: too weak, a weak confirmation, and two strong ones that differ.\<close>

definition weak_password_form :: form_data where
  "weak_password_form =
     form ''Anna'' ''Kovacs'' ''anna@example.com'' ''+36302748465'' (js ''abc'') (js ''abc'')"

definition weak_confirm_form :: form_data where
  "weak_confirm_form =
     form ''Anna'' ''Kovacs'' ''anna@example.com'' ''+36302748465'' (js ''Abcdefg1'') (js ''abc'')"

definition mismatch_form :: form_data where
  "mismatch_form =
     form ''Anna'' ''Kovacs'' ''anna@example.com'' ''+36302748465''
       (js ''Abcdefg1'') (js ''Abcdefg2'')"

definition with_form :: "form_data \<Rightarrow> state" where
  "with_form fd = initial_state\<lparr>formData := fd\<rparr>"

text \<open>
  The state after a submit of \<open>weak_password_form\<close>, which sets \<open>passwordError\<close>, and a
  change of the password to a strong one; the confirmation is still the weak one.
\<close>

definition stale_state :: state where
  "stale_state =
     on_change (on_submit ''ok'' (with_form weak_password_form) Nullish) Password
       (js ''Abcdefg1'')"

text \<open>The effects of the success branch.\<close>

fun is_success_effect :: "effect \<Rightarrow> bool" where
  "is_success_effect (SetSuccessMessage m) = True"
| "is_success_effect (SetShowSuccess b) = True"
| "is_success_effect (SetTimeout cb ms) = True"
| "is_success_effect e = False"

section \<open>The tests of the code in the words of the specification\<close>

lemma re_test_iff: "re_test ps s = (\<exists>i\<le>length s. re_match ps i (drop i s))"
proof -
  have "set [0 ..< Suc (length s)] = {i. i \<le> length s}" by auto
  then show ?thesis unfolding re_test_def list_ex_iff by blast
qed

lemma re_test_Bol: "re_test (Bol # ps) s = re_match ps 0 s"
  by (auto simp: re_test_iff)

lemma re_match_Chr:
  "re_match (Chr c # ps) pos s = (\<exists>x xs. s = x # xs \<and> cls_match c x \<and> re_match ps (Suc pos) xs)"
  by (cases s) auto

lemma re_match_Rep:
  "re_match (Rep c lo hi # ps) pos s =
     (\<exists>u v. s = u @ v \<and> lo \<le> length u \<and> (case hi of None \<Rightarrow> True | Some h \<Rightarrow> length u \<le> h)
        \<and> (\<forall>x \<in> set u. cls_match c x) \<and> re_match ps (pos + length u) v)"
  (is "?L = ?R")
proof
  assume ?L
  then obtain k where k: "lo \<le> k" "k \<le> length s"
    "case hi of None \<Rightarrow> True | Some h \<Rightarrow> k \<le> h"
    "list_all (cls_match c) (take k s)" "re_match ps (pos + k) (drop k s)"
    by (auto simp: list_ex_iff)
  have "s = take k s @ drop k s" by simp
  moreover have "length (take k s) = k" using k(2) by simp
  moreover have "\<forall>x \<in> set (take k s). cls_match c x" using k(4) by (simp add: list_all_iff)
  ultimately show ?R
    using k(1,3,5) by metis
next
  assume ?R
  then obtain u v where uv: "s = u @ v" "lo \<le> length u"
    "case hi of None \<Rightarrow> True | Some h \<Rightarrow> length u \<le> h"
    "\<forall>x \<in> set u. cls_match c x" "re_match ps (pos + length u) v"
    by blast
  have "length u \<in> set [lo ..< Suc (length s)]" using uv(1,2) by simp
  moreover have "list_all (cls_match c) (take (length u) s)"
    using uv(1,4) by (simp add: list_all_iff)
  moreover have "re_match ps (pos + length u) (drop (length u) s)"
    using uv(1,5) by simp
  ultimately show ?L
    using uv(3) unfolding re_match.simps list_ex_iff by blast
qed

lemma re_test_digit: "re_test digit_re s = (\<exists>c \<in> set s. is_digit c)"
proof
  assume "re_test digit_re s"
  then obtain i where "re_match [Chr Digit] i (drop i s)"
    unfolding re_test_iff digit_re_def by blast
  then obtain x xs where "drop i s = x # xs" "is_digit x"
    unfolding re_match_Chr by auto
  then show "\<exists>c \<in> set s. is_digit c"
    by (metis in_set_dropD list.set_intros(1))
next
  assume "\<exists>c \<in> set s. is_digit c"
  then obtain c where c: "c \<in> set s" "is_digit c" by blast
  then obtain u v where s: "s = u @ c # v" by (meson split_list)
  have "re_match [Chr Digit] (length u) (drop (length u) s)"
    using c s by simp
  moreover have "length u \<le> length s" using s by simp
  ultimately show "re_test digit_re s"
    unfolding re_test_iff digit_re_def by blast
qed

lemma re_match_RepI:
  assumes "lo \<le> length u" "case hi of None \<Rightarrow> True | Some h \<Rightarrow> length u \<le> h"
    "\<forall>x \<in> set u. cls_match c x" "re_match ps (pos + length u) v"
  shows "re_match (Rep c lo hi # ps) pos (u @ v)"
  unfolding re_match_Rep using assms by blast

lemma re_match_ChrI:
  assumes "cls_match c x" "re_match ps (Suc pos) xs"
  shows "re_match (Chr c # ps) pos (x # xs)"
  using assms by simp

lemma not_space_at: "cls_match (NoneOf [Space, Lit 0x40]) c = (\<not> is_space c \<and> c \<noteq> 0x40)"
  by simp

lemma email_re_imp_shape:
  assumes "re_test email_re s"
  shows "email_shape s"
proof -
  let ?C = "NoneOf [Space, Lit 0x40]"
  from assms have "re_match [Rep ?C 1 None, Chr (Lit 0x40), Rep ?C 1 None, Chr (Lit 0x2E),
      Rep ?C 1 None, Eol] 0 s"
    unfolding email_re_def re_test_Bol .
  then obtain lp r1 where 1: "s = lp @ r1" "1 \<le> length lp" "\<forall>x \<in> set lp. cls_match ?C x"
    and m1: "re_match [Chr (Lit 0x40), Rep ?C 1 None, Chr (Lit 0x2E), Rep ?C 1 None, Eol]
                (0 + length lp) r1"
    unfolding re_match_Rep [of ?C 1 None] by blast
  from m1 obtain r2 where 2: "r1 = 0x40 # r2"
    and m2: "re_match [Rep ?C 1 None, Chr (Lit 0x2E), Rep ?C 1 None, Eol] (Suc (0 + length lp)) r2"
    unfolding re_match_Chr [of "Lit 0x40"] by auto
  from m2 obtain dom r3 where 3: "r2 = dom @ r3" "1 \<le> length dom" "\<forall>x \<in> set dom. cls_match ?C x"
    and m3: "re_match [Chr (Lit 0x2E), Rep ?C 1 None, Eol] (Suc (0 + length lp) + length dom) r3"
    unfolding re_match_Rep [of ?C 1 None] by blast
  from m3 obtain r4 where 4: "r3 = 0x2E # r4"
    and m4: "re_match [Rep ?C 1 None, Eol] (Suc (Suc (0 + length lp) + length dom)) r4"
    unfolding re_match_Chr [of "Lit 0x2E"] by auto
  from m4 obtain tld r5 where 5: "r4 = tld @ r5" "1 \<le> length tld" "\<forall>x \<in> set tld. cls_match ?C x"
    and m5: "re_match [Eol] (Suc (Suc (0 + length lp) + length dom) + length tld) r5"
    unfolding re_match_Rep [of ?C 1 None] by blast
  from m5 have 6: "r5 = []" by simp
  have "s = lp @ [0x40] @ dom @ [0x2E] @ tld" using 1(1) 2 3(1) 4 5(1) 6 by simp
  moreover have "lp \<noteq> []" "dom \<noteq> []" "tld \<noteq> []" using 1(2) 3(2) 5(2) by auto
  moreover have "\<forall>c \<in> set (lp @ dom @ tld). \<not> is_space c \<and> c \<noteq> 0x40"
    using 1(3) 3(3) 5(3) unfolding not_space_at by auto
  ultimately show ?thesis unfolding email_shape_def by blast
qed

lemma email_shape_imp_re:
  assumes "email_shape s"
  shows "re_test email_re s"
proof -
  let ?C = "NoneOf [Space, Lit 0x40]"
  from assms obtain lp dom tld where s: "s = lp @ [0x40] @ dom @ [0x2E] @ tld"
    and ne: "lp \<noteq> []" "dom \<noteq> []" "tld \<noteq> []"
    and cs: "\<forall>c \<in> set (lp @ dom @ tld). \<not> is_space c \<and> c \<noteq> 0x40"
    unfolding email_shape_def by blast
  have c1: "\<forall>x \<in> set lp. cls_match ?C x" and c2: "\<forall>x \<in> set dom. cls_match ?C x"
    and c3: "\<forall>x \<in> set tld. cls_match ?C x"
    using cs unfolding not_space_at by auto
  have l: "1 \<le> length lp" "1 \<le> length dom" "1 \<le> length tld"
    using ne by (simp_all add: Suc_le_eq)
  have m5: "re_match [Rep ?C 1 None, Eol] p (tld @ [])" for p
    by (rule re_match_RepI) (use l c3 in simp_all)
  have m4: "re_match [Chr (Lit 0x2E), Rep ?C 1 None, Eol] p (0x2E # tld @ [])" for p
    by (rule re_match_ChrI) (simp, rule m5)
  have m3: "re_match [Rep ?C 1 None, Chr (Lit 0x2E), Rep ?C 1 None, Eol] p
              (dom @ 0x2E # tld @ [])" for p
    by (rule re_match_RepI) (use l c2 m4 in simp_all)
  have m2: "re_match [Chr (Lit 0x40), Rep ?C 1 None, Chr (Lit 0x2E), Rep ?C 1 None, Eol] p
              (0x40 # dom @ 0x2E # tld @ [])" for p
    by (rule re_match_ChrI) (simp, rule m3)
  have m1: "re_match [Rep ?C 1 None, Chr (Lit 0x40), Rep ?C 1 None, Chr (Lit 0x2E),
              Rep ?C 1 None, Eol] 0 (lp @ 0x40 # dom @ 0x2E # tld @ [])"
    by (rule re_match_RepI) (use l c1 m2 in simp_all)
  then show ?thesis unfolding email_re_def re_test_Bol s by simp
qed

lemma email_re_iff: "re_test email_re s = email_shape s"
  using email_re_imp_shape email_shape_imp_re by blast

lemma phone_re_imp_parts:
  assumes "re_test phone_re s"
  shows "phone_parts s"
proof -
  from assms have "re_match [Chr (Lit 0x2B), Rep Digit 2 (Some 2), Rep Digit 1 (Some 2),
      Rep Digit 7 (Some 8), Eol] 0 s"
    unfolding phone_re_def re_test_Bol .
  then obtain r1 where 1: "s = 0x2B # r1"
    and m1: "re_match [Rep Digit 2 (Some 2), Rep Digit 1 (Some 2), Rep Digit 7 (Some 8), Eol]
               (Suc 0) r1"
    unfolding re_match_Chr [of "Lit 0x2B"] by auto
  from m1 obtain cc r2 where 2: "r1 = cc @ r2" "2 \<le> length cc" "length cc \<le> 2"
      "\<forall>x \<in> set cc. cls_match Digit x"
    and m2: "re_match [Rep Digit 1 (Some 2), Rep Digit 7 (Some 8), Eol] (Suc 0 + length cc) r2"
    unfolding re_match_Rep [of Digit 2] by auto
  from m2 obtain area r3 where 3: "r2 = area @ r3" "1 \<le> length area" "length area \<le> 2"
      "\<forall>x \<in> set area. cls_match Digit x"
    and m3: "re_match [Rep Digit 7 (Some 8), Eol] (Suc 0 + length cc + length area) r3"
    unfolding re_match_Rep [of Digit 1] by auto
  from m3 obtain num r4 where 4: "r3 = num @ r4" "7 \<le> length num" "length num \<le> 8"
      "\<forall>x \<in> set num. cls_match Digit x"
    and m4: "re_match [Eol] (Suc 0 + length cc + length area + length num) r4"
    unfolding re_match_Rep [of Digit 7] by auto
  from m4 have 5: "r4 = []" by simp
  have "s = [0x2B] @ cc @ area @ num" using 1 2(1) 3(1) 4(1) 5 by simp
  moreover have "length cc = 2" using 2(2,3) by simp
  moreover have "length area = 1 \<or> length area = 2" using 3(2,3) by arith
  moreover have "length num = 7 \<or> length num = 8" using 4(2,3) by arith
  moreover have "\<forall>c \<in> set (cc @ area @ num). is_digit c" using 2(4) 3(4) 4(4) by auto
  ultimately show ?thesis unfolding phone_parts_def by blast
qed

lemma phone_parts_imp_re:
  assumes "phone_parts s"
  shows "re_test phone_re s"
proof -
  from assms obtain cc area num where s: "s = [0x2B] @ cc @ area @ num"
    and l: "length cc = 2" "length area = 1 \<or> length area = 2" "length num = 7 \<or> length num = 8"
    and d: "\<forall>c \<in> set (cc @ area @ num). is_digit c"
    unfolding phone_parts_def by blast
  have d1: "\<forall>x \<in> set cc. cls_match Digit x" and d2: "\<forall>x \<in> set area. cls_match Digit x"
    and d3: "\<forall>x \<in> set num. cls_match Digit x"
    using d by auto
  have m4: "re_match [Rep Digit 7 (Some 8), Eol] p (num @ [])" for p
    by (rule re_match_RepI) (use l(3) d3 in auto)
  have m3: "re_match [Rep Digit 1 (Some 2), Rep Digit 7 (Some 8), Eol] p (area @ num @ [])" for p
    by (rule re_match_RepI) (use l(2) d2 m4 in auto)
  have m2: "re_match [Rep Digit 2 (Some 2), Rep Digit 1 (Some 2), Rep Digit 7 (Some 8), Eol] p
              (cc @ area @ num @ [])" for p
    by (rule re_match_RepI) (use l(1) d1 m3 in auto)
  have m1: "re_match [Chr (Lit 0x2B), Rep Digit 2 (Some 2), Rep Digit 1 (Some 2),
              Rep Digit 7 (Some 8), Eol] 0 (0x2B # cc @ area @ num @ [])"
    by (rule re_match_ChrI) (simp, rule m2)
  then show ?thesis unfolding phone_re_def re_test_Bol s by simp
qed

lemma phone_parts_iff_shape: "phone_parts s = phone_shape s"
proof
  assume "phone_parts s"
  then obtain cc area num where s: "s = [0x2B] @ cc @ area @ num"
    and l: "length cc = 2" "length area = 1 \<or> length area = 2" "length num = 7 \<or> length num = 8"
    and d: "\<forall>c \<in> set (cc @ area @ num). is_digit c"
    unfolding phone_parts_def by blast
  have "s = 0x2B # (cc @ area @ num)" using s by simp
  moreover have "10 \<le> length (cc @ area @ num)" "length (cc @ area @ num) \<le> 12"
    using l by auto
  ultimately show "phone_shape s" unfolding phone_shape_def using d by blast
next
  assume "phone_shape s"
  then obtain ds where s: "s = 0x2B # ds" and l: "10 \<le> length ds" "length ds \<le> 12"
    and d: "\<forall>c \<in> set ds. is_digit c"
    unfolding phone_shape_def by blast
  define a :: nat where "a = (if length ds = 12 then 2 else 1)"
  define cc where "cc = take 2 ds"
  define area where "area = take a (drop 2 ds)"
  define num where "num = drop (2 + a) ds"
  have ds: "ds = cc @ area @ num"
    unfolding cc_def area_def num_def
    by (metis append_take_drop_id drop_drop add.commute)
  have "length cc = 2" using l unfolding cc_def by simp
  moreover have "length area = 1 \<or> length area = 2" using l unfolding area_def a_def by simp
  moreover have "length num = 7 \<or> length num = 8" using l unfolding num_def a_def by auto
  moreover have "\<forall>c \<in> set (cc @ area @ num). is_digit c" using d ds by simp
  moreover have "s = [0x2B] @ cc @ area @ num" using s ds by simp
  ultimately show "phone_parts s" unfolding phone_parts_def by blast
qed

lemma phone_re_iff: "re_test phone_re s = phone_parts s"
  using phone_re_imp_parts phone_parts_imp_re by blast

lemma tail_iff:
  "re_match [Rep AnyChar 8 None, Eol] p s = (8 \<le> length s \<and> (\<forall>c \<in> set s. \<not> is_line_terminator c))"
proof
  assume "re_match [Rep AnyChar 8 None, Eol] p s"
  then obtain u v where "s = u @ v" "8 \<le> length u" "\<forall>x \<in> set u. cls_match AnyChar x"
      "re_match [Eol] (p + length u) v"
    unfolding re_match_Rep [of AnyChar 8] by auto
  then show "8 \<le> length s \<and> (\<forall>c \<in> set s. \<not> is_line_terminator c)" by auto
next
  assume a: "8 \<le> length s \<and> (\<forall>c \<in> set s. \<not> is_line_terminator c)"
  have "re_match [Rep AnyChar 8 None, Eol] p (s @ [])"
    by (rule re_match_RepI) (use a in auto)
  then show "re_match [Rep AnyChar 8 None, Eol] p s" by simp
qed

lemma lookahead_imp:
  assumes "re_match [Rep AnyChar 0 None, Chr c] p s"
  shows "\<exists>x \<in> set s. cls_match c x"
proof -
  from assms obtain u v where 1: "s = u @ v" and m: "re_match [Chr c] (p + length u) v"
    unfolding re_match_Rep [of AnyChar 0] by auto
  from m obtain x xs where "v = x # xs" "cls_match c x"
    unfolding re_match_Chr by auto
  with 1 show ?thesis by auto
qed

lemma lookahead_intro:
  assumes "\<forall>c \<in> set s. \<not> is_line_terminator c" "x \<in> set s" "cls_match c x"
  shows "re_match [Rep AnyChar 0 None, Chr c] p s"
proof -
  from assms(2) obtain u v where s: "s = u @ x # v" by (meson split_list)
  have "re_match [Chr c] q (x # v)" for q using assms(3) by simp
  then have "re_match [Rep AnyChar 0 None, Chr c] p (u @ x # v)"
    by (intro re_match_RepI) (use assms(1) s in auto)
  then show ?thesis using s by simp
qed

lemma password_re_iff: "re_test password_re s = password_rule s"
proof
  assume "re_test password_re s"
  then have m: "re_match [Rep AnyChar 0 None, Chr (Range 0x61 0x7A)] 0 s"
      "re_match [Rep AnyChar 0 None, Chr (Range 0x41 0x5A)] 0 s"
      "re_match [Rep AnyChar 0 None, Chr Digit] 0 s"
      "re_match [Rep AnyChar 8 None, Eol] 0 s"
    unfolding password_re_def re_test_Bol by (simp_all only: re_match.simps(6))
  show "password_rule s"
    using lookahead_imp [OF m(1)] lookahead_imp [OF m(2)] lookahead_imp [OF m(3)] m(4)
    unfolding tail_iff password_rule_def strength_rule_def list_ex_iff is_lower_def is_upper_def
    by simp
next
  assume "password_rule s"
  then have r: "8 \<le> length s" "\<exists>c \<in> set s. is_lower c" "\<exists>c \<in> set s. is_upper c"
      "\<exists>c \<in> set s. is_digit c" "\<forall>c \<in> set s. \<not> is_line_terminator c"
    unfolding password_rule_def strength_rule_def list_ex_iff by simp_all
  from r(2) obtain a where a: "a \<in> set s" "cls_match (Range 0x61 0x7A) a"
    unfolding is_lower_def by auto
  from r(3) obtain b where b: "b \<in> set s" "cls_match (Range 0x41 0x5A) b"
    unfolding is_upper_def by auto
  from r(4) obtain d where d: "d \<in> set s" "cls_match Digit d" by auto
  have "re_match [Rep AnyChar 8 None, Eol] 0 s" unfolding tail_iff using r(1,5) by simp
  then show "re_test password_re s"
    unfolding password_re_def re_test_Bol
    using lookahead_intro [OF r(5) a, of 0] lookahead_intro [OF r(5) b, of 0]
      lookahead_intro [OF r(5) d, of 0]
    by (simp only: re_match.simps(6) simp_thms)
qed

lemma run_Nil: "run [] s = s"
  by (simp add: run_def)

lemma run_Cons: "run (e # es) s = run es (apply_effect s e)"
  by (simp add: run_def)

lemma run_append: "run (es @ fs) s = run fs (run es s)"
  by (simp add: run_def)

lemma run_validation_frame:
  "list_all is_validation es \<Longrightarrow>
     successMessage (run es s) = successMessage s \<and> showSuccess (run es s) = showSuccess s
     \<and> formData (run es s) = formData s"
proof (induction es arbitrary: s)
  case Nil
  show ?case by (simp add: run_Nil)
next
  case (Cons e es)
  then obtain kvs where "e = SetErrorMessage kvs" by (cases e) auto
  with Cons show ?case by (simp add: run_Cons)
qed

lemma password_validation_step:
  "password_validation fd =
     (if step_passes fd PasswordStep then [clear_step PasswordStep]
      else [SetErrorMessage
              [(failure_key fd PasswordStep, ErrMsg (failure_message fd PasswordStep))]])"
  by (simp add: password_validation_def clear_step_def)

lemma phoneNumber_validation_step:
  "phoneNumber_validation fd =
     (if step_passes fd PhoneNumberStep then clear_step PhoneNumberStep # password_validation fd
      else [SetErrorMessage
              [(failure_key fd PhoneNumberStep, ErrMsg (failure_message fd PhoneNumberStep))]])"
  by (simp add: phoneNumber_validation_def clear_step_def)

lemma email_validation_step:
  "email_validation fd =
     (if step_passes fd EmailStep then clear_step EmailStep # phoneNumber_validation fd
      else [SetErrorMessage [(failure_key fd EmailStep, ErrMsg (failure_message fd EmailStep))]])"
  by (simp add: email_validation_def clear_step_def)

lemma lastName_validation_step:
  "lastName_validation fd =
     (if step_passes fd LastNameStep then clear_step LastNameStep # email_validation fd
      else [SetErrorMessage
              [(failure_key fd LastNameStep, ErrMsg (failure_message fd LastNameStep))]])"
  by (simp add: lastName_validation_def clear_step_def)

lemma firstName_validation_step:
  "firstName_validation fd =
     (if step_passes fd FirstNameStep then clear_step FirstNameStep # lastName_validation fd
      else [SetErrorMessage
              [(failure_key fd FirstNameStep, ErrMsg (failure_message fd FirstNameStep))]])"
  by (simp add: firstName_validation_def clear_step_def)

lemmas validation_steps =
  firstName_validation_step lastName_validation_step email_validation_step
  phoneNumber_validation_step password_validation_step

lemma validation_chain:
  "firstName_validation fd =
     map clear_step (takeWhile (step_passes fd) step_order)
     @ (case first_failing fd of None \<Rightarrow> []
        | Some st \<Rightarrow> [SetErrorMessage [(failure_key fd st, ErrMsg (failure_message fd st))]])"
  unfolding validation_steps step_order_def first_failing_def
  by (simp del: step_passes.simps failure_key.simps failure_message.simps)

lemma validation_only: "list_all is_validation (firstName_validation fd)"
  unfolding validation_steps clear_step_def
  by (simp del: step_passes.simps failure_key.simps failure_message.simps)

lemma validation_nonempty: "firstName_validation fd \<noteq> []"
  unfolding firstName_validation_step by simp

lemma failure_key_in_step: "failure_key fd st \<in> set (step_keys st)"
  by (cases st) simp_all

lemma first_failing_cases:
  "first_failing fd = None \<or> (\<exists>st. first_failing fd = Some st \<and> \<not> step_passes fd st)"
  unfolding first_failing_def by (cases "find (\<lambda>st. \<not> step_passes fd st) step_order") (auto simp: find_Some_iff)

lemma reported_clear: "reported (map clear_step sts) = []"
  by (induction sts) (auto simp: reported_def clear_step_def split: step.splits)

lemma reported_append: "reported (es @ fs) = reported es @ reported fs"
  by (simp add: reported_def)

lemma reported_validation:
  "reported (firstName_validation fd) =
     (case first_failing fd of None \<Rightarrow> []
      | Some st \<Rightarrow> [(failure_key fd st, failure_message fd st)])"
  unfolding validation_chain reported_append reported_clear
  by (simp add: reported_def split: option.splits)

section \<open>Field changes\<close>

text \<open>
  C8. For every field name \<open>n\<close> and value \<open>v\<close>, \<open>handleChange\<close> writes \<open>v\<close> into the form
  data at \<open>n\<close> and changes nothing else: the other fields keep their values, and the error
  state, the success message and the success flag are unchanged.
\<close>

theorem handleChange_frame:
  "formData (on_change s n v) n = v
   \<and> (\<forall>m. m \<noteq> n \<longrightarrow> formData (on_change s n v) m = formData s m)
   \<and> errorMessage (on_change s n v) = errorMessage s
   \<and> successMessage (on_change s n v) = successMessage s
   \<and> showSuccess (on_change s n v) = showSuccess s"
  by (simp add: on_change_def handleChange_def run_def)

theorem handleChange_frame_witness:
  "formData (on_change initial_state Email (js ''a@b.c'')) Email = js ''a@b.c''
   \<and> formData (on_change initial_state Email (js ''a@b.c'')) Password = []
   \<and> errorMessage (on_change initial_state Email (js ''a@b.c'')) = (\<lambda>k. ErrFalse)
   \<and> successMessage (on_change initial_state Email (js ''a@b.c'')) = []
   \<and> showSuccess (on_change initial_state Email (js ''a@b.c'')) = False"
  using handleChange_frame [of initial_state Email "js ''a@b.c''"]
  by (simp add: initial_state_def)

section \<open>The error state after a submit\<close>

lemma name_step: "(\<not> length s < 2 \<and> \<not> re_test digit_re s) = name_rule s"
  by (auto simp: re_test_digit contains_digit_def name_rule_def)

lemma run_validation_errors:
  "list_all is_validation es \<Longrightarrow> errorMessage s = errorMessage t \<Longrightarrow>
     errorMessage (run es s) = errorMessage (run es t)"
proof (induction es arbitrary: s t)
  case Nil
  then show ?case by (simp add: run_Nil)
next
  case (Cons e es)
  from Cons.prems(1) obtain kvs where e: "e = SetErrorMessage kvs" by (cases e) auto
  have "errorMessage (apply_effect s e) = errorMessage (apply_effect t e)"
    using Cons.prems(2) e by simp
  moreover have "list_all is_validation es"
    using Cons.prems(1) by simp
  ultimately have "errorMessage (run es (apply_effect s e)) = errorMessage (run es (apply_effect t e))"
    by (rule Cons.IH [rotated])
  then show ?case
    by (simp only: run_Cons)
qed

lemma on_response_errors: "errorMessage (run (on_response success r) s) = errorMessage s"
  by (simp add: on_response_def run_Cons run_Nil)

lemma on_submit_run:
  "on_submit success s r =
     run (firstName_validation (formData s)) (run (on_response success r) s)"
  by (simp add: on_submit_def submit_trace_def handleSubmit_def run_append run_Cons)

lemma on_submit_errors:
  "errorMessage (on_submit success s r) = errorMessage (run (firstName_validation (formData s)) s)"
  unfolding on_submit_run
  by (rule run_validation_errors [OF validation_only on_response_errors])

lemma password_errors:
  "errorMessage (run (password_validation fd) t) =
     (if \<not> step_passes fd PasswordStep then
        (errorMessage t)(failure_key fd PasswordStep :=
           ErrMsg (failure_message fd PasswordStep))
      else (errorMessage t)(PasswordError := ErrFalse, ConfirmPasswordError := ErrFalse))"
  unfolding password_validation_step clear_step_def
  by (simp add: run_Cons run_Nil del: step_passes.simps failure_key.simps failure_message.simps)

lemma phoneNumber_errors:
  "errorMessage (run (phoneNumber_validation fd) t) =
     (if \<not> step_passes fd PhoneNumberStep then
        (errorMessage t)(PhoneNumberError := ErrMsg (failure_message fd PhoneNumberStep))
      else if \<not> step_passes fd PasswordStep then
        (errorMessage t)(PhoneNumberError := ErrFalse,
          failure_key fd PasswordStep := ErrMsg (failure_message fd PasswordStep))
      else
        (errorMessage t)(PhoneNumberError := ErrFalse,
          PasswordError := ErrFalse, ConfirmPasswordError := ErrFalse))"
  unfolding phoneNumber_validation_step clear_step_def
  by (simp add: run_Cons run_Nil password_errors
        del: step_passes.simps failure_key.simps(5) failure_message.simps)

lemma email_errors:
  "errorMessage (run (email_validation fd) t) =
     (if \<not> step_passes fd EmailStep then
        (errorMessage t)(EmailError := ErrMsg (failure_message fd EmailStep))
      else if \<not> step_passes fd PhoneNumberStep then
        (errorMessage t)(EmailError := ErrFalse,
          PhoneNumberError := ErrMsg (failure_message fd PhoneNumberStep))
      else if \<not> step_passes fd PasswordStep then
        (errorMessage t)(EmailError := ErrFalse, PhoneNumberError := ErrFalse,
          failure_key fd PasswordStep := ErrMsg (failure_message fd PasswordStep))
      else
        (errorMessage t)(EmailError := ErrFalse, PhoneNumberError := ErrFalse,
          PasswordError := ErrFalse, ConfirmPasswordError := ErrFalse))"
  unfolding email_validation_step clear_step_def
  by (simp add: run_Cons run_Nil phoneNumber_errors
        del: step_passes.simps failure_key.simps(5) failure_message.simps)

lemma lastName_errors:
  "errorMessage (run (lastName_validation fd) t) =
     (if \<not> step_passes fd LastNameStep then
        (errorMessage t)(LastNameError := ErrMsg (failure_message fd LastNameStep))
      else if \<not> step_passes fd EmailStep then
        (errorMessage t)(LastNameError := ErrFalse,
          EmailError := ErrMsg (failure_message fd EmailStep))
      else if \<not> step_passes fd PhoneNumberStep then
        (errorMessage t)(LastNameError := ErrFalse, EmailError := ErrFalse,
          PhoneNumberError := ErrMsg (failure_message fd PhoneNumberStep))
      else if \<not> step_passes fd PasswordStep then
        (errorMessage t)(LastNameError := ErrFalse, EmailError := ErrFalse,
          PhoneNumberError := ErrFalse,
          failure_key fd PasswordStep := ErrMsg (failure_message fd PasswordStep))
      else
        (errorMessage t)(LastNameError := ErrFalse, EmailError := ErrFalse,
          PhoneNumberError := ErrFalse,
          PasswordError := ErrFalse, ConfirmPasswordError := ErrFalse))"
  unfolding lastName_validation_step clear_step_def
  by (simp add: run_Cons run_Nil email_errors
        del: step_passes.simps failure_key.simps(5) failure_message.simps)

lemma final_errors:
  "errorMessage (run (firstName_validation fd) s) =
     (if \<not> step_passes fd FirstNameStep then
        (errorMessage s)(FirstNameError := ErrMsg (failure_message fd FirstNameStep))
      else if \<not> step_passes fd LastNameStep then
        (errorMessage s)(FirstNameError := ErrFalse,
          LastNameError := ErrMsg (failure_message fd LastNameStep))
      else if \<not> step_passes fd EmailStep then
        (errorMessage s)(FirstNameError := ErrFalse, LastNameError := ErrFalse,
          EmailError := ErrMsg (failure_message fd EmailStep))
      else if \<not> step_passes fd PhoneNumberStep then
        (errorMessage s)(FirstNameError := ErrFalse, LastNameError := ErrFalse,
          EmailError := ErrFalse,
          PhoneNumberError := ErrMsg (failure_message fd PhoneNumberStep))
      else if \<not> step_passes fd PasswordStep then
        (errorMessage s)(FirstNameError := ErrFalse, LastNameError := ErrFalse,
          EmailError := ErrFalse, PhoneNumberError := ErrFalse,
          failure_key fd PasswordStep := ErrMsg (failure_message fd PasswordStep))
      else
        (errorMessage s)(FirstNameError := ErrFalse, LastNameError := ErrFalse,
          EmailError := ErrFalse, PhoneNumberError := ErrFalse,
          PasswordError := ErrFalse, ConfirmPasswordError := ErrFalse))"
  unfolding firstName_validation_step clear_step_def
  by (simp add: run_Cons run_Nil lastName_errors
        del: step_passes.simps failure_key.simps(5) failure_message.simps)

lemma email_step: "step_passes fd EmailStep = email_shape (fd Email)"
  by (simp add: email_re_iff)

lemma phone_step: "step_passes fd PhoneNumberStep = phone_shape (fd PhoneNumber)"
  by (simp add: phone_re_iff phone_parts_iff_shape)

lemma first_step: "step_passes fd FirstNameStep = name_rule (fd FirstName)"
  by (simp add: name_step)

lemma last_step: "step_passes fd LastNameStep = name_rule (fd LastName)"
  by (simp add: name_step)

lemma with_form_simps:
  "formData (with_form fd) = fd" "errorMessage (with_form fd) = (\<lambda>k. ErrFalse)"
  "successMessage (with_form fd) = []" "showSuccess (with_form fd) = False"
  by (simp_all add: with_form_def initial_state_def)

lemma password_key_cases:
  "failure_key fd PasswordStep = PasswordError \<or> failure_key fd PasswordStep = ConfirmPasswordError"
  by simp

section \<open>Order of the validations\<close>

text \<open>
  C3. For every form data the validations run in the order first name, last name, email,
  phone number, password with its confirmation, and stop at the first step that fails: the
  steps before it clear their entries, the failing step sets one entry of its own to a
  message, and nothing follows; so at most one entry is set to a message per submit. On the
  error state after the submit: the entry of the failing step holds its message, the entries
  of the steps before it are \<open>false\<close>, and every other entry has the value it had before;
  when no step fails all six entries are \<open>false\<close>.
\<close>

theorem validation_short_circuit:
  "firstName_validation fd =
     map clear_step (takeWhile (step_passes fd) step_order)
     @ (case first_failing fd of None \<Rightarrow> []
        | Some st \<Rightarrow> [SetErrorMessage [(failure_key fd st, ErrMsg (failure_message fd st))]])
   \<and> (\<forall>st. first_failing fd = Some st \<longrightarrow>
         \<not> step_passes fd st \<and> failure_key fd st \<in> set (step_keys st))
   \<and> reported (firstName_validation fd) =
       (case first_failing fd of None \<Rightarrow> []
        | Some st \<Rightarrow> [(failure_key fd st, failure_message fd st)])
   \<and> length (reported (firstName_validation fd)) \<le> 1
   \<and> (formData s = fd \<longrightarrow>
        (case first_failing fd of
           None \<Rightarrow> (\<forall>k. errorMessage (on_submit success s r) k = ErrFalse)
         | Some st \<Rightarrow>
             errorMessage (on_submit success s r) (failure_key fd st) =
               ErrMsg (failure_message fd st)
             \<and> (\<forall>k. k \<noteq> failure_key fd st \<longrightarrow>
                   errorMessage (on_submit success s r) k =
                     (if k \<in> set (cleared_keys fd) then ErrFalse else errorMessage s k))))"
proof -
  have "\<forall>st. first_failing fd = Some st \<longrightarrow>
         \<not> step_passes fd st \<and> failure_key fd st \<in> set (step_keys st)"
    using first_failing_cases [of fd] failure_key_in_step by auto
  moreover have "length (reported (firstName_validation fd)) \<le> 1"
    unfolding reported_validation by (simp split: option.splits)
  moreover have "case first_failing fd of
           None \<Rightarrow> (\<forall>k. errorMessage (on_submit success s r) k = ErrFalse)
         | Some st \<Rightarrow>
             errorMessage (on_submit success s r) (failure_key fd st) =
               ErrMsg (failure_message fd st)
             \<and> (\<forall>k. k \<noteq> failure_key fd st \<longrightarrow>
                   errorMessage (on_submit success s r) k =
                     (if k \<in> set (cleared_keys fd) then ErrFalse else errorMessage s k))"
    if f: "formData s = fd"
  proof -
    have e: "errorMessage (on_submit success s r) = errorMessage (run (firstName_validation fd) s)"
      using on_submit_errors [of success s r] f by simp
    consider (fn) "\<not> step_passes fd FirstNameStep"
      | (ln) "step_passes fd FirstNameStep" "\<not> step_passes fd LastNameStep"
      | (em) "step_passes fd FirstNameStep" "step_passes fd LastNameStep"
          "\<not> step_passes fd EmailStep"
      | (ph) "step_passes fd FirstNameStep" "step_passes fd LastNameStep"
          "step_passes fd EmailStep" "\<not> step_passes fd PhoneNumberStep"
      | (pw) "step_passes fd FirstNameStep" "step_passes fd LastNameStep"
          "step_passes fd EmailStep" "step_passes fd PhoneNumberStep"
          "\<not> step_passes fd PasswordStep"
      | (ok) "step_passes fd FirstNameStep" "step_passes fd LastNameStep"
          "step_passes fd EmailStep" "step_passes fd PhoneNumberStep"
          "step_passes fd PasswordStep"
      by blast
    then show ?thesis
    proof cases
      case fn
      then show ?thesis
        unfolding e final_errors first_failing_def cleared_keys_def step_order_def
        by (simp del: step_passes.simps failure_message.simps)
    next
      case ln
      then show ?thesis
        unfolding e final_errors first_failing_def cleared_keys_def step_order_def
        by (simp del: step_passes.simps failure_message.simps)
    next
      case em
      then show ?thesis
        unfolding e final_errors first_failing_def cleared_keys_def step_order_def
        by (simp del: step_passes.simps failure_message.simps)
    next
      case ph
      then show ?thesis
        unfolding e final_errors first_failing_def cleared_keys_def step_order_def
        by (simp del: step_passes.simps failure_message.simps)
    next
      case pw
      then show ?thesis
        unfolding e final_errors first_failing_def cleared_keys_def step_order_def
        using password_key_cases [of fd]
        by (auto simp del: step_passes.simps failure_key.simps(5) failure_message.simps)
    next
      case ok
      have "errorMessage (run (firstName_validation fd) s) k = ErrFalse" for k
        unfolding final_errors using ok by (cases k) (simp_all del: step_passes.simps)
      then show ?thesis
        unfolding e first_failing_def step_order_def
        using ok by (simp del: step_passes.simps)
    qed
  qed
  ultimately show ?thesis
    using validation_chain reported_validation by blast
qed

theorem validation_short_circuit_witness:
  "firstName_validation two_invalid_form =
     [SetErrorMessage [(FirstNameError, ErrFalse)],
      SetErrorMessage [(LastNameError, ErrMsg ''Must be at least 2 characters long'')]]
   \<and> \<not> step_passes two_invalid_form EmailStep
   \<and> reported (firstName_validation two_invalid_form) =
       [(LastNameError, ''Must be at least 2 characters long'')]
   \<and> errorMessage (on_submit ''ok'' (with_form two_invalid_form) Nullish) LastNameError =
       ErrMsg ''Must be at least 2 characters long''
   \<and> errorMessage (on_submit ''ok'' (with_form two_invalid_form) Nullish) FirstNameError =
       ErrFalse
   \<and> errorMessage (on_submit ''ok'' (with_form two_invalid_form) Nullish) EmailError =
       ErrFalse"
proof -
  have a: "takeWhile (step_passes two_invalid_form) step_order = [FirstNameStep]"
    by code_simp
  have b: "first_failing two_invalid_form = Some LastNameStep"
    by code_simp
  have c: "failure_message two_invalid_form LastNameStep = ''Must be at least 2 characters long''"
    by code_simp
  have d: "\<not> step_passes two_invalid_form EmailStep"
    by code_simp
  have k: "cleared_keys two_invalid_form = [FirstNameError]"
    unfolding cleared_keys_def a by simp
  note t = validation_short_circuit [of two_invalid_form "with_form two_invalid_form" "''ok''"
      Nullish, unfolded with_form_simps]
  have "errorMessage (on_submit ''ok'' (with_form two_invalid_form) Nullish) LastNameError =
       ErrMsg ''Must be at least 2 characters long''"
    using t by (simp add: b c del: step_passes.simps failure_message.simps)
  moreover have "errorMessage (on_submit ''ok'' (with_form two_invalid_form) Nullish)
       FirstNameError = ErrFalse"
      "errorMessage (on_submit ''ok'' (with_form two_invalid_form) Nullish) EmailError = ErrFalse"
    using t by (simp_all add: b k del: step_passes.simps failure_message.simps)
  moreover have "firstName_validation two_invalid_form =
       [SetErrorMessage [(FirstNameError, ErrFalse)],
        SetErrorMessage [(LastNameError, ErrMsg ''Must be at least 2 characters long'')]]"
      "reported (firstName_validation two_invalid_form) =
         [(LastNameError, ''Must be at least 2 characters long'')]"
    using t
    by (simp_all add: a b c clear_step_def reported_def
          del: step_passes.simps failure_message.simps)
  ultimately show ?thesis
    using d by blast
qed

section \<open>Name, email and phone number\<close>

text \<open>
  C4. For all form data where the first name or the last name is shorter than 2 code units or
  contains a digit, the submit reports exactly one name entry, with a message that names a
  defect of that field, it is the last effect of the handler, and the entries of the email,
  the phone number and the passwords are untouched. In detail: when the first name is too
  short or contains a digit, its entry is set (to \<open>Must be at least 2 characters long\<close>
  when too short, else to \<open>The field cannot contain numbers\<close>) and no other entry is
  touched; when the first name passes and the last name is too short or contains a digit,
  the first name's entry is cleared, the last name's entry is set likewise, and nothing
  follows.
\<close>

theorem name_fields_rejected:
  "(length (formData s FirstName) < 2 \<longrightarrow>
      firstName_validation (formData s) =
        [SetErrorMessage [(FirstNameError, ErrMsg ''Must be at least 2 characters long'')]]
      \<and> errorMessage (on_submit success s r) =
          (errorMessage s)(FirstNameError := ErrMsg ''Must be at least 2 characters long''))
   \<and> (2 \<le> length (formData s FirstName) \<and> contains_digit (formData s FirstName) \<longrightarrow>
      firstName_validation (formData s) =
        [SetErrorMessage [(FirstNameError, ErrMsg ''The field cannot contain numbers'')]]
      \<and> errorMessage (on_submit success s r) =
          (errorMessage s)(FirstNameError := ErrMsg ''The field cannot contain numbers''))
   \<and> (name_rule (formData s FirstName) \<and> length (formData s LastName) < 2 \<longrightarrow>
      firstName_validation (formData s) =
        [SetErrorMessage [(FirstNameError, ErrFalse)],
         SetErrorMessage [(LastNameError, ErrMsg ''Must be at least 2 characters long'')]]
      \<and> errorMessage (on_submit success s r) =
          (errorMessage s)(FirstNameError := ErrFalse,
            LastNameError := ErrMsg ''Must be at least 2 characters long''))
   \<and> (name_rule (formData s FirstName) \<and> 2 \<le> length (formData s LastName)
        \<and> contains_digit (formData s LastName) \<longrightarrow>
      firstName_validation (formData s) =
        [SetErrorMessage [(FirstNameError, ErrFalse)],
         SetErrorMessage [(LastNameError, ErrMsg ''The field cannot contain numbers'')]]
      \<and> errorMessage (on_submit success s r) =
          (errorMessage s)(FirstNameError := ErrFalse,
            LastNameError := ErrMsg ''The field cannot contain numbers''))
   \<and> (\<not> name_rule (formData s FirstName) \<or> \<not> name_rule (formData s LastName) \<longrightarrow>
      (\<exists>k m. reported (firstName_validation (formData s)) = [(k, m)]
         \<and> last (firstName_validation (formData s)) = SetErrorMessage [(k, ErrMsg m)]
         \<and> ((k = FirstNameError \<and> name_defect (formData s FirstName) m)
              \<or> (k = LastNameError \<and> name_defect (formData s LastName) m)))
      \<and> errorMessage (on_submit success s r) EmailError = errorMessage s EmailError
      \<and> errorMessage (on_submit success s r) PhoneNumberError = errorMessage s PhoneNumberError
      \<and> errorMessage (on_submit success s r) PasswordError = errorMessage s PasswordError
      \<and> errorMessage (on_submit success s r) ConfirmPasswordError =
          errorMessage s ConfirmPasswordError)"
proof -
  have cases: "firstName_validation (formData s) =
      (if length (formData s FirstName) < 2 then
         [SetErrorMessage [(FirstNameError, ErrMsg ''Must be at least 2 characters long'')]]
       else if contains_digit (formData s FirstName) then
         [SetErrorMessage [(FirstNameError, ErrMsg ''The field cannot contain numbers'')]]
       else if length (formData s LastName) < 2 then
         [SetErrorMessage [(FirstNameError, ErrFalse)],
          SetErrorMessage [(LastNameError, ErrMsg ''Must be at least 2 characters long'')]]
       else if contains_digit (formData s LastName) then
         [SetErrorMessage [(FirstNameError, ErrFalse)],
          SetErrorMessage [(LastNameError, ErrMsg ''The field cannot contain numbers'')]]
       else
         SetErrorMessage [(FirstNameError, ErrFalse)] #
         SetErrorMessage [(LastNameError, ErrFalse)] # email_validation (formData s))"
    unfolding firstName_validation_def lastName_validation_def
    by (simp add: re_test_digit contains_digit_def)
  have detail: "?thesis"
    if "name_rule (formData s FirstName)" "name_rule (formData s LastName)"
    using that unfolding on_submit_errors cases
    by (simp add: name_rule_def)
  have general: "?thesis"
    if "\<not> name_rule (formData s FirstName) \<or> \<not> name_rule (formData s LastName)"
    using that unfolding on_submit_errors cases
    by (auto simp: name_rule_def name_defect_def reported_def run_Cons run_Nil)
  show ?thesis
    using detail general by blast
qed

theorem name_fields_rejected_witness:
  "errorMessage (on_submit ''ok'' (with_form short_first_form) Nullish) =
     (\<lambda>k. ErrFalse)(FirstNameError := ErrMsg ''Must be at least 2 characters long'')
   \<and> errorMessage (on_submit ''ok'' (with_form digit_first_form) Nullish) =
     (\<lambda>k. ErrFalse)(FirstNameError := ErrMsg ''The field cannot contain numbers'')
   \<and> errorMessage (on_submit ''ok'' (with_form short_last_form) Nullish) =
     (\<lambda>k. ErrFalse)(FirstNameError := ErrFalse,
        LastNameError := ErrMsg ''Must be at least 2 characters long'')
   \<and> errorMessage (on_submit ''ok'' (with_form digit_last_form) Nullish) =
     (\<lambda>k. ErrFalse)(FirstNameError := ErrFalse,
        LastNameError := ErrMsg ''The field cannot contain numbers'')"
proof -
  have a: "length (formData (with_form short_first_form) FirstName) < 2"
    by code_simp
  have b: "2 \<le> length (formData (with_form digit_first_form) FirstName)
      \<and> contains_digit (formData (with_form digit_first_form) FirstName)"
    by code_simp
  have c: "name_rule (formData (with_form short_last_form) FirstName)
      \<and> length (formData (with_form short_last_form) LastName) < 2"
    by code_simp
  have d: "name_rule (formData (with_form digit_last_form) FirstName)
      \<and> 2 \<le> length (formData (with_form digit_last_form) LastName)
      \<and> contains_digit (formData (with_form digit_last_form) LastName)"
    by code_simp
  have e: "errorMessage (with_form fd) = (\<lambda>k. ErrFalse)" for fd
    by (simp add: with_form_def initial_state_def)
  show ?thesis
    using name_fields_rejected [of "with_form short_first_form" "''ok''" Nullish]
      name_fields_rejected [of "with_form digit_first_form" "''ok''" Nullish]
      name_fields_rejected [of "with_form short_last_form" "''ok''" Nullish]
      name_fields_rejected [of "with_form digit_last_form" "''ok''" Nullish]
      a b c d
    by (simp only: e simp_thms)
qed

text \<open>
  C5. When both name fields pass, the email is accepted exactly when it has the shape
  \<open>local@domain.tld\<close>: then its entry is cleared and the phone number is validated next;
  otherwise its entry is set to \<open>Incorrect email adress\<close> and nothing follows.
\<close>

theorem email_accepted_iff_shape:
  assumes "name_rule (formData s FirstName)" and "name_rule (formData s LastName)"
  shows "re_test email_re (formData s Email) = email_shape (formData s Email)
   \<and> (email_shape (formData s Email) \<longrightarrow>
        firstName_validation (formData s) =
          [SetErrorMessage [(FirstNameError, ErrFalse)],
           SetErrorMessage [(LastNameError, ErrFalse)],
           SetErrorMessage [(EmailError, ErrFalse)]] @ phoneNumber_validation (formData s)
        \<and> errorMessage (on_submit success s r) EmailError = ErrFalse)
   \<and> (\<not> email_shape (formData s Email) \<longrightarrow>
        firstName_validation (formData s) =
          [SetErrorMessage [(FirstNameError, ErrFalse)],
           SetErrorMessage [(LastNameError, ErrFalse)],
           SetErrorMessage [(EmailError, ErrMsg ''Incorrect email adress'')]]
        \<and> errorMessage (on_submit success s r) =
            (errorMessage s)(FirstNameError := ErrFalse, LastNameError := ErrFalse,
              EmailError := ErrMsg ''Incorrect email adress''))"
proof -
  have p: "step_passes (formData s) FirstNameStep" "step_passes (formData s) LastNameStep"
    using assms by (simp_all only: first_step last_step)
  have t: "firstName_validation (formData s) =
      SetErrorMessage [(FirstNameError, ErrFalse)] #
      SetErrorMessage [(LastNameError, ErrFalse)] # email_validation (formData s)"
    unfolding firstName_validation_step lastName_validation_step clear_step_def
    using p by (simp del: step_passes.simps)
  have e: "errorMessage (on_submit success s r) EmailError =
      (if step_passes (formData s) EmailStep then ErrFalse
       else ErrMsg ''Incorrect email adress'')"
    unfolding on_submit_errors final_errors using p by (simp del: step_passes.simps(1,2,3))
  have f: "\<not> step_passes (formData s) EmailStep \<Longrightarrow>
      errorMessage (on_submit success s r) =
        (errorMessage s)(FirstNameError := ErrFalse, LastNameError := ErrFalse,
          EmailError := ErrMsg ''Incorrect email adress'')"
    unfolding on_submit_errors final_errors using p by (simp del: step_passes.simps)
  show ?thesis
    using e f unfolding t email_validation_def email_step email_re_iff by simp
qed

theorem email_accepted_iff_shape_witness:
  "name_rule (valid_form FirstName) \<and> name_rule (valid_form LastName)
   \<and> email_shape (valid_form Email)
   \<and> errorMessage (on_submit ''ok'' (with_form valid_form) Nullish) EmailError = ErrFalse
   \<and> name_rule (bad_email_form FirstName) \<and> name_rule (bad_email_form LastName)
   \<and> \<not> email_shape (bad_email_form Email)
   \<and> errorMessage (on_submit ''ok'' (with_form bad_email_form) Nullish) =
       (\<lambda>k. ErrFalse)(FirstNameError := ErrFalse, LastNameError := ErrFalse,
          EmailError := ErrMsg ''Incorrect email adress'')"
proof -
  have f: "formData (with_form fd) = fd" and e: "errorMessage (with_form fd) = (\<lambda>k. ErrFalse)"
    for fd
    by (simp_all add: with_form_def initial_state_def)
  have a: "name_rule (valid_form FirstName)" "name_rule (valid_form LastName)"
      "name_rule (bad_email_form FirstName)" "name_rule (bad_email_form LastName)"
    by code_simp+
  have b: "re_test email_re (valid_form Email)" "\<not> re_test email_re (bad_email_form Email)"
    by code_simp+
  note ok = email_accepted_iff_shape [of "with_form valid_form" "''ok''" Nullish,
      unfolded f e, OF a(1) a(2)]
  note bad = email_accepted_iff_shape [of "with_form bad_email_form" "''ok''" Nullish,
      unfolded f e, OF a(3) a(4)]
  show ?thesis
    using ok bad a b by blast
qed

text \<open>
  C6. When the name fields and the email pass, the phone number is accepted exactly when it
  is \<open>+\<close>, a country code of 2 digits, an area code of 1 or 2 digits and a number of 7 or
  8 digits, that is \<open>+\<close> and 10 to 12 digits: then its entry is cleared and the passwords
  are validated next; otherwise its entry is set to
  \<open>Incorrect phone number format e.g.(+36302748465)\<close> and nothing follows.
\<close>

theorem phone_accepted_iff_shape:
  assumes "name_rule (formData s FirstName)" and "name_rule (formData s LastName)"
    and "email_shape (formData s Email)"
  shows "re_test phone_re (formData s PhoneNumber) = phone_parts (formData s PhoneNumber)
   \<and> phone_parts (formData s PhoneNumber) = phone_shape (formData s PhoneNumber)
   \<and> (phone_shape (formData s PhoneNumber) \<longrightarrow>
        firstName_validation (formData s) =
          [SetErrorMessage [(FirstNameError, ErrFalse)],
           SetErrorMessage [(LastNameError, ErrFalse)],
           SetErrorMessage [(EmailError, ErrFalse)],
           SetErrorMessage [(PhoneNumberError, ErrFalse)]] @ password_validation (formData s)
        \<and> errorMessage (on_submit success s r) PhoneNumberError = ErrFalse)
   \<and> (\<not> phone_shape (formData s PhoneNumber) \<longrightarrow>
        firstName_validation (formData s) =
          [SetErrorMessage [(FirstNameError, ErrFalse)],
           SetErrorMessage [(LastNameError, ErrFalse)],
           SetErrorMessage [(EmailError, ErrFalse)],
           SetErrorMessage
             [(PhoneNumberError, ErrMsg ''Incorrect phone number format e.g.(+36302748465)'')]]
        \<and> errorMessage (on_submit success s r) =
            (errorMessage s)(FirstNameError := ErrFalse, LastNameError := ErrFalse,
              EmailError := ErrFalse,
              PhoneNumberError := ErrMsg ''Incorrect phone number format e.g.(+36302748465)''))"
proof -
  have p: "step_passes (formData s) FirstNameStep" "step_passes (formData s) LastNameStep"
      "step_passes (formData s) EmailStep"
    using assms by (simp_all only: first_step last_step email_step)
  have t: "firstName_validation (formData s) =
      SetErrorMessage [(FirstNameError, ErrFalse)] #
      SetErrorMessage [(LastNameError, ErrFalse)] #
      SetErrorMessage [(EmailError, ErrFalse)] # phoneNumber_validation (formData s)"
    unfolding firstName_validation_step lastName_validation_step email_validation_step
      clear_step_def
    using p by (simp del: step_passes.simps)
  have e: "errorMessage (on_submit success s r) PhoneNumberError =
      (if step_passes (formData s) PhoneNumberStep then ErrFalse
       else ErrMsg ''Incorrect phone number format e.g.(+36302748465)'')"
    unfolding on_submit_errors final_errors using p by (simp del: step_passes.simps(1,2,3,4))
  have f: "\<not> step_passes (formData s) PhoneNumberStep \<Longrightarrow>
      errorMessage (on_submit success s r) =
        (errorMessage s)(FirstNameError := ErrFalse, LastNameError := ErrFalse,
          EmailError := ErrFalse,
          PhoneNumberError := ErrMsg ''Incorrect phone number format e.g.(+36302748465)'')"
    unfolding on_submit_errors final_errors using p by (simp del: step_passes.simps)
  show ?thesis
    using e f unfolding t phoneNumber_validation_def phone_step
    by (simp add: phone_re_iff phone_parts_iff_shape)
qed

theorem phone_accepted_iff_shape_witness:
  "name_rule (valid_form FirstName) \<and> name_rule (valid_form LastName)
   \<and> email_shape (valid_form Email) \<and> phone_shape (valid_form PhoneNumber)
   \<and> errorMessage (on_submit ''ok'' (with_form valid_form) Nullish) PhoneNumberError = ErrFalse
   \<and> name_rule (bad_phone_form FirstName) \<and> name_rule (bad_phone_form LastName)
   \<and> email_shape (bad_phone_form Email) \<and> \<not> phone_shape (bad_phone_form PhoneNumber)
   \<and> errorMessage (on_submit ''ok'' (with_form bad_phone_form) Nullish) =
       (\<lambda>k. ErrFalse)(FirstNameError := ErrFalse, LastNameError := ErrFalse,
          EmailError := ErrFalse,
          PhoneNumberError := ErrMsg ''Incorrect phone number format e.g.(+36302748465)'')"
proof -
  have f: "formData (with_form fd) = fd" and e: "errorMessage (with_form fd) = (\<lambda>k. ErrFalse)"
    for fd
    by (simp_all add: with_form_def initial_state_def)
  have a: "name_rule (valid_form FirstName)" "name_rule (valid_form LastName)"
      "name_rule (bad_phone_form FirstName)" "name_rule (bad_phone_form LastName)"
    by code_simp+
  have "re_test email_re (valid_form Email)" "re_test email_re (bad_phone_form Email)"
    by code_simp+
  then have b: "email_shape (valid_form Email)" "email_shape (bad_phone_form Email)"
    by (simp_all only: email_re_iff)
  have c: "re_test phone_re (valid_form PhoneNumber)"
      "\<not> re_test phone_re (bad_phone_form PhoneNumber)"
    by code_simp+
  note ok = phone_accepted_iff_shape [of "with_form valid_form" "''ok''" Nullish,
      unfolded f e, OF a(1) a(2) b(1)]
  note bad = phone_accepted_iff_shape [of "with_form bad_phone_form" "''ok''" Nullish,
      unfolded f e, OF a(3) a(4) b(2)]
  show ?thesis
    using ok bad a b c by blast
qed

section \<open>Password and confirmation\<close>

text \<open>
  C7. The password test of the code holds for the passwords of at least 8 code units with a
  lowercase letter, an uppercase letter and a digit that contain no line terminator: the
  specification's rule does not name the last condition.
\<close>

theorem strength_rule_counterexample:
  "reached separator_form PasswordStep
   \<and> strength_rule (separator_form Password)
   \<and> strength_rule (separator_form ConfirmPassword)
   \<and> separator_form Password = separator_form ConfirmPassword
   \<and> password_validation separator_form =
       [SetErrorMessage [(PasswordError, ErrMsg ''Min. 8 characters, upper and lowercase'')]]
   \<and> errorMessage (on_submit ''ok'' (with_form separator_form) Nullish) PasswordError =
       ErrMsg ''Min. 8 characters, upper and lowercase''"
proof -
  have a: "reached separator_form PasswordStep" "strength_rule (separator_form Password)"
      "strength_rule (separator_form ConfirmPassword)"
      "separator_form Password = separator_form ConfirmPassword"
    by code_simp+
  have b: "re_test password_re (separator_form Password) = False"
    by code_simp
  have c: "password_validation separator_form =
      [SetErrorMessage [(PasswordError, ErrMsg ''Min. 8 characters, upper and lowercase'')]]"
    unfolding password_validation_def by (simp add: b)
  have d: "errorMessage (on_submit ''ok'' (with_form separator_form) Nullish) PasswordError =
      ErrMsg ''Min. 8 characters, upper and lowercase''"
    by code_simp
  show ?thesis using a c d by blast
qed

text \<open>
  C7, amended. For every form data that reaches the password check, with the strength rule
  requiring besides that the value contains no line terminator (LF, CR, U+2028, U+2029):
  if the password fails the rule then \<open>passwordError\<close> is set and the handler returns; else
  if the confirmation fails the rule then \<open>confirmPasswordError\<close> is set and the handler
  returns; else if the two differ then \<open>passwordError\<close> is set to
  \<open>The passwords don't match\<close> and the handler returns; else both entries are cleared.
\<close>

theorem password_block:
  assumes "name_rule (formData s FirstName)" and "name_rule (formData s LastName)"
    and "email_shape (formData s Email)" and "phone_shape (formData s PhoneNumber)"
  shows "re_test password_re (formData s Password) = password_rule (formData s Password)
   \<and> re_test password_re (formData s ConfirmPassword) =
       password_rule (formData s ConfirmPassword)
   \<and> firstName_validation (formData s) =
       [SetErrorMessage [(FirstNameError, ErrFalse)],
        SetErrorMessage [(LastNameError, ErrFalse)],
        SetErrorMessage [(EmailError, ErrFalse)],
        SetErrorMessage [(PhoneNumberError, ErrFalse)]] @ password_validation (formData s)
   \<and> password_validation (formData s) =
       (if \<not> password_rule (formData s Password) then
          [SetErrorMessage
             [(PasswordError, ErrMsg ''Min. 8 characters, upper and lowercase'')]]
        else if \<not> password_rule (formData s ConfirmPassword) then
          [SetErrorMessage
             [(ConfirmPasswordError, ErrMsg ''Min. 8 characters, upper and lowercase'')]]
        else if formData s Password \<noteq> formData s ConfirmPassword then
          [SetErrorMessage [(PasswordError, ErrMsg ''The passwords don't match'')]]
        else
          [SetErrorMessage [(PasswordError, ErrFalse), (ConfirmPasswordError, ErrFalse)]])
   \<and> errorMessage (on_submit success s r) =
       (if \<not> password_rule (formData s Password) then
          (errorMessage s)(FirstNameError := ErrFalse, LastNameError := ErrFalse,
            EmailError := ErrFalse, PhoneNumberError := ErrFalse,
            PasswordError := ErrMsg ''Min. 8 characters, upper and lowercase'')
        else if \<not> password_rule (formData s ConfirmPassword) then
          (errorMessage s)(FirstNameError := ErrFalse, LastNameError := ErrFalse,
            EmailError := ErrFalse, PhoneNumberError := ErrFalse,
            ConfirmPasswordError := ErrMsg ''Min. 8 characters, upper and lowercase'')
        else if formData s Password \<noteq> formData s ConfirmPassword then
          (errorMessage s)(FirstNameError := ErrFalse, LastNameError := ErrFalse,
            EmailError := ErrFalse, PhoneNumberError := ErrFalse,
            PasswordError := ErrMsg ''The passwords don't match'')
        else
          (errorMessage s)(FirstNameError := ErrFalse, LastNameError := ErrFalse,
            EmailError := ErrFalse, PhoneNumberError := ErrFalse,
            PasswordError := ErrFalse, ConfirmPasswordError := ErrFalse))"
proof -
  have p: "step_passes (formData s) FirstNameStep" "step_passes (formData s) LastNameStep"
      "step_passes (formData s) EmailStep" "step_passes (formData s) PhoneNumberStep"
    using assms by (simp_all only: first_step last_step email_step phone_step)
  have t: "firstName_validation (formData s) =
      [SetErrorMessage [(FirstNameError, ErrFalse)],
       SetErrorMessage [(LastNameError, ErrFalse)],
       SetErrorMessage [(EmailError, ErrFalse)],
       SetErrorMessage [(PhoneNumberError, ErrFalse)]] @ password_validation (formData s)"
    unfolding firstName_validation_step lastName_validation_step email_validation_step
      phoneNumber_validation_step clear_step_def
    using p by (simp del: step_passes.simps)
  have v: "password_validation (formData s) =
       (if \<not> password_rule (formData s Password) then
          [SetErrorMessage
             [(PasswordError, ErrMsg ''Min. 8 characters, upper and lowercase'')]]
        else if \<not> password_rule (formData s ConfirmPassword) then
          [SetErrorMessage
             [(ConfirmPasswordError, ErrMsg ''Min. 8 characters, upper and lowercase'')]]
        else if formData s Password \<noteq> formData s ConfirmPassword then
          [SetErrorMessage [(PasswordError, ErrMsg ''The passwords don't match'')]]
        else
          [SetErrorMessage [(PasswordError, ErrFalse), (ConfirmPasswordError, ErrFalse)]])"
    unfolding password_validation_def password_re_iff by simp
  have e: "errorMessage (on_submit success s r) =
      errorMessage (run (password_validation (formData s))
        (s\<lparr>errorMessage := (errorMessage s)(FirstNameError := ErrFalse,
            LastNameError := ErrFalse, EmailError := ErrFalse,
            PhoneNumberError := ErrFalse)\<rparr>))"
    unfolding on_submit_errors t by (simp add: run_Cons)
  show ?thesis
    unfolding e using t v by (simp add: password_re_iff run_Cons run_Nil)
qed

theorem password_block_witness:
  "password_rule (valid_form Password) \<and> password_rule (valid_form ConfirmPassword)
   \<and> valid_form Password = valid_form ConfirmPassword
   \<and> firstName_validation valid_form =
       [SetErrorMessage [(FirstNameError, ErrFalse)],
        SetErrorMessage [(LastNameError, ErrFalse)],
        SetErrorMessage [(EmailError, ErrFalse)],
        SetErrorMessage [(PhoneNumberError, ErrFalse)],
        SetErrorMessage [(PasswordError, ErrFalse), (ConfirmPasswordError, ErrFalse)]]
   \<and> \<not> password_rule (separator_form Password)
   \<and> password_validation separator_form =
       [SetErrorMessage [(PasswordError, ErrMsg ''Min. 8 characters, upper and lowercase'')]]
   \<and> password_rule (weak_confirm_form Password)
   \<and> \<not> password_rule (weak_confirm_form ConfirmPassword)
   \<and> password_validation weak_confirm_form =
       [SetErrorMessage
          [(ConfirmPasswordError, ErrMsg ''Min. 8 characters, upper and lowercase'')]]
   \<and> password_rule (mismatch_form Password) \<and> password_rule (mismatch_form ConfirmPassword)
   \<and> password_validation mismatch_form =
       [SetErrorMessage [(PasswordError, ErrMsg ''The passwords don't match'')]]"
proof -
  have n: "name_rule (valid_form FirstName)" "name_rule (valid_form LastName)"
    by code_simp+
  have "re_test email_re (valid_form Email)" "re_test phone_re (valid_form PhoneNumber)"
    by code_simp+
  then have a: "email_shape (valid_form Email)" "phone_shape (valid_form PhoneNumber)"
    by (simp_all only: email_re_iff phone_re_iff phone_parts_iff_shape)
  have same: "separator_form f = valid_form f" "weak_confirm_form f = valid_form f"
      "mismatch_form f = valid_form f"
    if "f = FirstName \<or> f = LastName \<or> f = Email \<or> f = PhoneNumber" for f
    using that
    by (auto simp: separator_form_def weak_confirm_form_def mismatch_form_def valid_form_def
          form_def)
  have b: "password_rule (valid_form Password)" "password_rule (valid_form ConfirmPassword)"
      "valid_form Password = valid_form ConfirmPassword"
      "\<not> password_rule (separator_form Password)"
      "password_rule (weak_confirm_form Password)"
      "\<not> password_rule (weak_confirm_form ConfirmPassword)"
      "password_rule (mismatch_form Password)" "password_rule (mismatch_form ConfirmPassword)"
      "mismatch_form Password \<noteq> mismatch_form ConfirmPassword"
    by code_simp+
  note ok = password_block [of "with_form valid_form" "''ok''" Nullish,
      unfolded with_form_simps, OF n a]
  note sep = password_block [of "with_form separator_form" "''ok''" Nullish,
      unfolded with_form_simps same [of FirstName, simplified] same [of LastName, simplified]
        same [of Email, simplified] same [of PhoneNumber, simplified], OF n a]
  note weak = password_block [of "with_form weak_confirm_form" "''ok''" Nullish,
      unfolded with_form_simps same [of FirstName, simplified] same [of LastName, simplified]
        same [of Email, simplified] same [of PhoneNumber, simplified], OF n a]
  note mis = password_block [of "with_form mismatch_form" "''ok''" Nullish,
      unfolded with_form_simps same [of FirstName, simplified] same [of LastName, simplified]
        same [of Email, simplified] same [of PhoneNumber, simplified], OF n a]
  show ?thesis
    using ok sep weak mis b by simp
qed

section \<open>The request and the response\<close>

lemma filter_validation_id: "filter is_validation (firstName_validation fd) = firstName_validation fd"
  using validation_only [of fd] by (simp add: list_all_iff)

lemma filter_validation_response: "filter is_validation (on_response success r) = []"
  by (simp add: on_response_def)

lemma filter_success_validation: "filter is_success_effect (firstName_validation fd) = []"
proof -
  have "\<not> is_success_effect e" if "is_validation e" for e
    using that by (cases e) simp_all
  then show ?thesis
    using validation_only [of fd] by (auto simp: list_all_iff filter_empty_conv)
qed

lemma on_submit_success:
  "successMessage (on_submit success s r) = successMessage (run (on_response success r) s)"
  "showSuccess (on_submit success s r) = showSuccess (run (on_response success r) s)"
  unfolding on_submit_run
  using run_validation_frame [OF validation_only] by simp_all

text \<open>
  C1. In every call of \<open>handleSubmit\<close> the PUT to \<open>/api/users/register\<close> with the current
  form data is issued before the \<open>await\<close>, where no validation has run, so also form data
  that fail validation are sent; and whatever the response is, the rest of the handler ends
  with the validation chain, which performs at least one update of the error state.
\<close>

theorem put_before_validation:
  "fst (handleSubmit success fd) = [PreventDefault, NetworkPut ''/api/users/register'' fd]
   \<and> filter is_validation (fst (handleSubmit success fd)) = []
   \<and> snd (handleSubmit success fd) r = on_response success r @ firstName_validation fd
   \<and> filter is_validation (snd (handleSubmit success fd) r) = firstName_validation fd
   \<and> firstName_validation fd \<noteq> []
   \<and> submit_trace success fd r =
       [PreventDefault, NetworkPut ''/api/users/register'' fd] @ on_response success r
       @ firstName_validation fd"
  by (simp add: handleSubmit_def submit_trace_def filter_validation_id
        filter_validation_response validation_nonempty)

theorem put_before_validation_witness:
  "fst (handleSubmit ''ok'' (formData initial_state)) =
     [PreventDefault, NetworkPut ''/api/users/register'' (formData initial_state)]
   \<and> snd (handleSubmit ''ok'' (formData initial_state)) Nullish =
     [SetErrorMessage [(FirstNameError, ErrMsg ''Must be at least 2 characters long'')]]
   \<and> submit_trace ''ok'' (formData initial_state) Nullish =
     [PreventDefault, NetworkPut ''/api/users/register'' (formData initial_state),
      SetErrorMessage [(FirstNameError, ErrMsg ''Must be at least 2 characters long'')]]"
proof -
  have a: "firstName_validation (formData initial_state) =
      [SetErrorMessage [(FirstNameError, ErrMsg ''Must be at least 2 characters long'')]]"
    by (simp add: firstName_validation_def initial_state_def)
  have b: "on_response ''ok'' Nullish = []"
    by (simp add: on_response_def)
  show ?thesis
    using put_before_validation [of "''ok''" "formData initial_state" Nullish]
    by (simp only: a b append_Nil append_Cons simp_thms)
qed

text \<open>
  C2. When the response has an empty \<open>errors\<close> array, the success message is set, the
  success toast is shown, and a navigation to \<open>/login\<close> is scheduled with a delay of 2000 ms.
\<close>

theorem success_on_empty_errors:
  "snd (handleSubmit success fd) (Body (Some [])) =
     [SetSuccessMessage success, SetShowSuccess True, SetTimeout (Navigate ''/login'') 2000]
     @ firstName_validation fd
   \<and> successMessage (on_submit success s (Body (Some []))) = success
   \<and> showSuccess (on_submit success s (Body (Some []))) = True
   \<and> SuccessToast success \<in> set (toasts (on_submit success s (Body (Some []))))"
proof -
  have a: "on_response success (Body (Some [])) =
      [SetSuccessMessage success, SetShowSuccess True, SetTimeout (Navigate ''/login'') 2000]"
    by (simp add: on_response_def)
  have b: "successMessage (on_submit success s (Body (Some []))) = success"
      "showSuccess (on_submit success s (Body (Some []))) = True"
    unfolding on_submit_success a by (simp_all add: run_Cons run_Nil)
  show ?thesis
    using b by (simp add: handleSubmit_def a toasts_def)
qed

theorem success_on_empty_errors_witness:
  "snd (handleSubmit ''ok'' (formData initial_state) ) (Body (Some [])) =
     [SetSuccessMessage ''ok'', SetShowSuccess True, SetTimeout (Navigate ''/login'') 2000,
      SetErrorMessage [(FirstNameError, ErrMsg ''Must be at least 2 characters long'')]]
   \<and> successMessage (on_submit ''ok'' initial_state (Body (Some []))) = ''ok''
   \<and> showSuccess (on_submit ''ok'' initial_state (Body (Some []))) = True
   \<and> SuccessToast ''ok'' \<in> set (toasts (on_submit ''ok'' initial_state (Body (Some []))))"
proof -
  have a: "firstName_validation (formData initial_state) =
      [SetErrorMessage [(FirstNameError, ErrMsg ''Must be at least 2 characters long'')]]"
    by (simp add: firstName_validation_def initial_state_def)
  show ?thesis
    using success_on_empty_errors [of "''ok''" "formData initial_state" initial_state]
    by (simp only: a append_Nil append_Cons simp_thms)
qed

text \<open>
  C9. The success effects (message, flag and the scheduled navigation) occur exactly when
  the response is an object whose \<open>errors\<close> property is an array of length below 1. For a
  null or undefined response, a response without \<open>errors\<close> and a response with a nonempty
  \<open>errors\<close> array there is no success effect, the success message and flag keep their
  values, and the validations run all the same.
\<close>

theorem success_iff_no_errors:
  "filter is_success_effect (snd (handleSubmit success fd) r) =
     (if \<exists>es. r = Body (Some es) \<and> length es < 1
      then [SetSuccessMessage success, SetShowSuccess True,
            SetTimeout (Navigate ''/login'') 2000]
      else [])
   \<and> filter is_validation (snd (handleSubmit success fd) r) = firstName_validation fd
   \<and> (r = Nullish \<or> r = Body None \<or> (\<exists>e es. r = Body (Some (e # es))) \<longrightarrow>
        snd (handleSubmit success fd) r = firstName_validation fd
        \<and> successMessage (on_submit success s r) = successMessage s
        \<and> showSuccess (on_submit success s r) = showSuccess s)"
proof -
  have a: "on_response success r =
      (if \<exists>es. r = Body (Some es) \<and> length es < 1
       then [SetSuccessMessage success, SetShowSuccess True,
             SetTimeout (Navigate ''/login'') 2000]
       else [])"
    by (auto simp: on_response_def split: response.splits option.splits)
  have b: "on_response success r = []"
    if "r = Nullish \<or> r = Body None \<or> (\<exists>e es. r = Body (Some (e # es)))"
    using that by (auto simp: on_response_def)
  have c: "filter is_success_effect (on_response success r) = on_response success r"
    by (simp add: on_response_def)
  have d: "snd (handleSubmit success fd) r = on_response success r @ firstName_validation fd"
    by (simp add: handleSubmit_def)
  have "filter is_success_effect (snd (handleSubmit success fd) r) = on_response success r"
    unfolding d by (simp add: c filter_success_validation)
  moreover have "filter is_validation (snd (handleSubmit success fd) r) = firstName_validation fd"
    unfolding d by (simp add: filter_validation_id filter_validation_response)
  moreover have "snd (handleSubmit success fd) r = firstName_validation fd
      \<and> successMessage (on_submit success s r) = successMessage s
      \<and> showSuccess (on_submit success s r) = showSuccess s"
    if "r = Nullish \<or> r = Body None \<or> (\<exists>e es. r = Body (Some (e # es)))"
    unfolding d on_submit_success b [OF that] by (simp add: run_Nil)
  ultimately show ?thesis
    using a by simp
qed

theorem success_iff_no_errors_witness:
  "filter is_success_effect (snd (handleSubmit ''ok'' valid_form) (Body (Some []))) =
     [SetSuccessMessage ''ok'', SetShowSuccess True, SetTimeout (Navigate ''/login'') 2000]
   \<and> filter is_success_effect (snd (handleSubmit ''ok'' valid_form) (Body (Some [js ''taken'']))) = []
   \<and> filter is_success_effect (snd (handleSubmit ''ok'' valid_form) (Body None)) = []
   \<and> filter is_success_effect (snd (handleSubmit ''ok'' valid_form) Nullish) = []
   \<and> snd (handleSubmit ''ok'' valid_form) Nullish = firstName_validation valid_form
   \<and> snd (handleSubmit ''ok'' valid_form) (Body None) = firstName_validation valid_form
   \<and> snd (handleSubmit ''ok'' valid_form) (Body (Some [js ''taken''])) =
       firstName_validation valid_form
   \<and> showSuccess (on_submit ''ok'' (with_form valid_form) Nullish) = False
   \<and> showSuccess (on_submit ''ok'' (with_form valid_form) (Body None)) = False
   \<and> showSuccess (on_submit ''ok'' (with_form valid_form) (Body (Some [js ''taken'']))) = False"
  using success_iff_no_errors [of "''ok''" valid_form "Body (Some [])" "with_form valid_form"]
    success_iff_no_errors [of "''ok''" valid_form "Body (Some [js ''taken''])" "with_form valid_form"]
    success_iff_no_errors [of "''ok''" valid_form "Body None" "with_form valid_form"]
    success_iff_no_errors [of "''ok''" valid_form Nullish "with_form valid_form"]
  by (simp add: with_form_simps filter_success_validation)

section \<open>Entries kept across submits\<close>

lemma reached_simps:
  "reached fd FirstNameStep = True"
  "reached fd LastNameStep = step_passes fd FirstNameStep"
  "reached fd EmailStep = (step_passes fd FirstNameStep \<and> step_passes fd LastNameStep)"
  "reached fd PhoneNumberStep =
     (step_passes fd FirstNameStep \<and> step_passes fd LastNameStep \<and> step_passes fd EmailStep)"
  "reached fd PasswordStep =
     (step_passes fd FirstNameStep \<and> step_passes fd LastNameStep \<and> step_passes fd EmailStep
      \<and> step_passes fd PhoneNumberStep)"
  by (simp_all add: reached_def step_order_def del: step_passes.simps)

text \<open>
  C10. After a submit with a stale \<open>passwordError\<close>, a password that now passes its test and
  a confirmation that fails: the password check is reached and passes, yet \<open>passwordError\<close>
  keeps its message.
\<close>

theorem stale_password_error_counterexample:
  "reached (formData stale_state) PasswordStep
   \<and> re_test password_re (formData stale_state Password)
   \<and> errorMessage stale_state PasswordError = ErrMsg ''Min. 8 characters, upper and lowercase''
   \<and> errorMessage (on_submit ''ok'' stale_state Nullish) PasswordError =
       ErrMsg ''Min. 8 characters, upper and lowercase''
   \<and> errorMessage (on_submit ''ok'' stale_state Nullish) ConfirmPasswordError =
       ErrMsg ''Min. 8 characters, upper and lowercase''"
  by code_simp

text \<open>
  C10, amended. In a single submit, each of the first name, last name, email and phone number
  whose validation is reached and passes has its entry reset to \<open>false\<close>; \<open>passwordError\<close>
  and \<open>confirmPasswordError\<close> are reset to \<open>false\<close> when all three password checks pass,
  and when one of them fails, one of the two entries is set to a message and the other keeps
  its value; the entries of the steps after the first failing step keep the values they had
  before the call; so after a submit in which every step passes all six entries are
  \<open>false\<close>.
\<close>

theorem error_entries_after_submit:
  "(\<forall>st. st \<noteq> PasswordStep \<and> reached (formData s) st \<and> step_passes (formData s) st \<longrightarrow>
       (\<forall>k \<in> set (step_keys st). errorMessage (on_submit success s r) k = ErrFalse))
   \<and> (reached (formData s) PasswordStep \<and> step_passes (formData s) PasswordStep \<longrightarrow>
       errorMessage (on_submit success s r) PasswordError = ErrFalse
       \<and> errorMessage (on_submit success s r) ConfirmPasswordError = ErrFalse)
   \<and> (reached (formData s) PasswordStep \<and> \<not> step_passes (formData s) PasswordStep \<longrightarrow>
       errorMessage (on_submit success s r) (failure_key (formData s) PasswordStep) =
         ErrMsg (failure_message (formData s) PasswordStep)
       \<and> (\<forall>k \<in> set (step_keys PasswordStep). k \<noteq> failure_key (formData s) PasswordStep \<longrightarrow>
             errorMessage (on_submit success s r) k = errorMessage s k))
   \<and> (\<forall>st. \<not> reached (formData s) st \<longrightarrow>
       (\<forall>k \<in> set (step_keys st). errorMessage (on_submit success s r) k = errorMessage s k))
   \<and> ((\<forall>st. step_passes (formData s) st) \<longrightarrow>
       (\<forall>k. errorMessage (on_submit success s r) k = ErrFalse))"
proof -
  let ?fd = "formData s"
  let ?E = "errorMessage (on_submit success s r)"
  have a: "\<forall>k \<in> set (step_keys st). ?E k = ErrFalse"
    if "st \<noteq> PasswordStep" "reached ?fd st" "step_passes ?fd st" for st
    using that password_key_cases [of ?fd] unfolding on_submit_errors final_errors
    by (cases st)
      (auto simp: reached_simps simp del: step_passes.simps failure_key.simps(5)
         failure_message.simps)
  have b: "?E PasswordError = ErrFalse \<and> ?E ConfirmPasswordError = ErrFalse"
    if "reached ?fd PasswordStep" "step_passes ?fd PasswordStep"
    using that unfolding on_submit_errors final_errors
    by (simp add: reached_simps del: step_passes.simps)
  have c: "?E (failure_key ?fd PasswordStep) = ErrMsg (failure_message ?fd PasswordStep)
      \<and> (\<forall>k \<in> set (step_keys PasswordStep). k \<noteq> failure_key ?fd PasswordStep \<longrightarrow>
            ?E k = errorMessage s k)"
    if "reached ?fd PasswordStep" "\<not> step_passes ?fd PasswordStep"
    using that password_key_cases [of ?fd] unfolding on_submit_errors final_errors
    by (auto simp: reached_simps simp del: step_passes.simps failure_key.simps(5)
          failure_message.simps)
  have d: "\<forall>k \<in> set (step_keys st). ?E k = errorMessage s k" if "\<not> reached ?fd st" for st
    using that password_key_cases [of ?fd] unfolding on_submit_errors final_errors
    by (cases st)
      (auto simp: reached_simps simp del: step_passes.simps failure_key.simps(5)
         failure_message.simps)
  have e: "?E k = ErrFalse" if "\<forall>st. step_passes ?fd st" for k
  proof -
    have "step_passes ?fd st" for st using that by blast
    then show ?thesis
      unfolding on_submit_errors final_errors
      by (cases k) (simp_all del: step_passes.simps)
  qed
  show ?thesis
    using a b c d e by blast
qed

theorem error_entries_after_submit_witness:
  "reached (formData stale_state) PasswordStep
   \<and> \<not> step_passes (formData stale_state) PasswordStep
   \<and> errorMessage (on_submit ''ok'' stale_state Nullish) FirstNameError = ErrFalse
   \<and> errorMessage (on_submit ''ok'' stale_state Nullish) PhoneNumberError = ErrFalse
   \<and> errorMessage (on_submit ''ok'' stale_state Nullish) ConfirmPasswordError =
       ErrMsg ''Min. 8 characters, upper and lowercase''
   \<and> errorMessage (on_submit ''ok'' stale_state Nullish) PasswordError =
       errorMessage stale_state PasswordError
   \<and> \<not> reached two_invalid_form EmailStep
   \<and> errorMessage (on_submit ''ok'' (with_form two_invalid_form) Nullish) EmailError = ErrFalse
   \<and> errorMessage (on_submit ''ok'' (with_form valid_form) Nullish) PasswordError = ErrFalse
   \<and> errorMessage (on_submit ''ok'' (with_form valid_form) Nullish) ConfirmPasswordError =
       ErrFalse
   \<and> errorMessage (on_submit ''ok'' (with_form valid_form) Nullish) EmailError = ErrFalse"
proof -
  have a: "reached (formData stale_state) PasswordStep"
      "\<not> step_passes (formData stale_state) PasswordStep"
      "step_passes (formData stale_state) FirstNameStep"
      "step_passes (formData stale_state) PhoneNumberStep"
      "failure_key (formData stale_state) PasswordStep = ConfirmPasswordError"
      "failure_message (formData stale_state) PasswordStep =
         ''Min. 8 characters, upper and lowercase''"
    by code_simp+
  have b: "\<not> reached two_invalid_form EmailStep"
    by code_simp
  have c: "reached valid_form PasswordStep" "step_passes valid_form PasswordStep"
    by code_simp+
  have p: "step_passes valid_form FirstNameStep" "step_passes valid_form LastNameStep"
      "step_passes valid_form EmailStep" "step_passes valid_form PhoneNumberStep"
    by code_simp+
  have "step_passes valid_form st" for st
    by (cases st) (simp_all only: p c(2))
  then have all: "\<forall>st. step_passes valid_form st" ..
  note st = error_entries_after_submit [of stale_state "''ok''" Nullish]
  note tw = error_entries_after_submit [of "with_form two_invalid_form" "''ok''" Nullish,
      unfolded with_form_simps]
  note ok = error_entries_after_submit [of "with_form valid_form" "''ok''" Nullish,
      unfolded with_form_simps]
  have "errorMessage (on_submit ''ok'' stale_state Nullish) FirstNameError = ErrFalse"
    using st a(1,3) by (auto simp: reached_simps simp del: step_passes.simps dest!: spec [of _ FirstNameStep])
  moreover have "errorMessage (on_submit ''ok'' stale_state Nullish) PhoneNumberError = ErrFalse"
    using st a(1,4) by (auto simp: reached_simps simp del: step_passes.simps dest!: spec [of _ PhoneNumberStep])
  moreover have "errorMessage (on_submit ''ok'' stale_state Nullish) ConfirmPasswordError =
       ErrMsg ''Min. 8 characters, upper and lowercase''"
    using st a(1,2,5,6) by simp
  moreover have "errorMessage (on_submit ''ok'' stale_state Nullish) PasswordError =
       errorMessage stale_state PasswordError"
    using st a(1,2,5) by simp
  moreover have "errorMessage (on_submit ''ok'' (with_form two_invalid_form) Nullish) EmailError
       = ErrFalse"
    using tw b by (auto dest!: spec [of _ EmailStep])
  moreover have "errorMessage (on_submit ''ok'' (with_form valid_form) Nullish) PasswordError
       = ErrFalse"
      "errorMessage (on_submit ''ok'' (with_form valid_form) Nullish) ConfirmPasswordError
       = ErrFalse"
    using ok c by simp_all
  moreover have "errorMessage (on_submit ''ok'' (with_form valid_form) Nullish) EmailError
       = ErrFalse"
    using ok all by blast
  ultimately show ?thesis
    using a(1,2) b by blast
qed

end
